theory Spec2Isabelle
  imports Complex_Main "HOL-Library.AList"
begin

section \<open>JavaScript values\<close>

text \<open>
  Bodies of HTTP replies are decoded JSON, handled by the code as untyped values
  (\<open>any\<close>). A value is one of the JSON values or \<open>undefined\<close>. An object is the
  association list of its own properties (keys distinct, as \<open>JSON.parse\<close> leaves
  them). Numbers are integers here: no claim depends on a fractional number.
  Strings are lists of 8-bit characters, so only strings whose code units are below
  256 are covered.
\<close>

datatype jsval =
    JUndefined
  | JNull
  | JBool bool
  | JNum int
  | JStr string
  | JArr "jsval list"
  | JObj "(string \<times> jsval) list"

text \<open>Truthiness, as tested by \<open>!response\<close> and \<open>if (error.response?.data)\<close>.\<close>

fun truthy :: "jsval \<Rightarrow> bool" where
  "truthy JUndefined = False"
| "truthy JNull = False"
| "truthy (JBool b) = b"
| "truthy (JNum n) = (n \<noteq> 0)"
| "truthy (JStr s) = (s \<noteq> [])"
| "truthy (JArr xs) = True"
| "truthy (JObj kvs) = True"

text \<open>\<open>typeof v === 'object'\<close>: objects, arrays and \<open>null\<close>.\<close>

fun isObjectType :: "jsval \<Rightarrow> bool" where
  "isObjectType JNull = True"
| "isObjectType (JArr xs) = True"
| "isObjectType (JObj kvs) = True"
| "isObjectType v = False"

text \<open>
  Reading a property \<open>v.k\<close> (or \<open>v?.k\<close>) for one of the names the code reads
  (\<open>id\<close>, \<open>jsonrpc\<close>, \<open>result\<close>, \<open>error\<close>): an object yields its own property or
  \<open>undefined\<close>; arrays, strings, numbers and booleans have no such property. The
  code never reads a property of \<open>null\<close> or \<open>undefined\<close> without \<open>?.\<close> or a
  preceding truthiness test, so these yield \<open>undefined\<close> too.
\<close>

definition getProp :: "string \<Rightarrow> jsval \<Rightarrow> jsval" where
  "getProp k v =
     (case v of
        JObj kvs \<Rightarrow> (case map_of kvs k of Some x \<Rightarrow> x | None \<Rightarrow> JUndefined)
      | _ \<Rightarrow> JUndefined)"

definition startsWith :: "string \<Rightarrow> string \<Rightarrow> bool" where
  "startsWith s p = (take (length p) s = p)"

section \<open>Arbitrary-precision integers: \<open>BigInt(string)\<close> and \<open>toString(radix)\<close>\<close>

text \<open>
  \<open>BigInt(s)\<close> trims white space from both ends of \<open>s\<close> and reads an integer
  literal; it throws a \<open>SyntaxError\<close> when the rest is not a literal. The formatter
  calls it only on strings that begin with \<open>0x\<close>, so only the hexadecimal literal
  (\<open>0x\<close> or \<open>0X\<close>, then one or more hexadecimal digits of either case) is modelled;
  \<open>None\<close> is the thrown error. The result is unbounded (\<open>nat\<close>).
\<close>

definition isStrWhiteSpaceChar :: "char \<Rightarrow> bool" where
  "isStrWhiteSpaceChar c =
     (let k = (of_char c :: nat)
      in k = 9 \<or> k = 10 \<or> k = 11 \<or> k = 12 \<or> k = 13 \<or> k = 32 \<or> k = 160)"

definition trimString :: "string \<Rightarrow> string" where
  "trimString s =
     rev (dropWhile isStrWhiteSpaceChar (rev (dropWhile isStrWhiteSpaceChar s)))"

definition hexDigitValue :: "char \<Rightarrow> nat option" where
  "hexDigitValue c =
     (let k = (of_char c :: nat)
      in if 48 \<le> k \<and> k \<le> 57 then Some (k - 48)
         else if 97 \<le> k \<and> k \<le> 102 then Some (k - 87)
         else if 65 \<le> k \<and> k \<le> 70 then Some (k - 55)
         else None)"

fun parseHexDigits :: "nat \<Rightarrow> string \<Rightarrow> nat option" where
  "parseHexDigits acc [] = Some acc"
| "parseHexDigits acc (c # cs) =
     (case hexDigitValue c of
        None \<Rightarrow> None
      | Some d \<Rightarrow> parseHexDigits (16 * acc + d) cs)"

definition BigInt :: "string \<Rightarrow> nat option" where
  "BigInt s =
     (let t = trimString s
      in if (startsWith t ''0x'' \<or> startsWith t ''0X'') \<and> drop 2 t \<noteq> []
         then parseHexDigits 0 (drop 2 t)
         else None)"

text \<open>
  \<open>n.toString(radix)\<close> of a non-negative \<open>BigInt\<close>, for a radix from 2 to 36: the
  digits of \<open>n\<close>, most significant first, without leading zeros, letters in lower
  case.
\<close>

definition digitChars :: string where
  "digitChars = ''0123456789abcdefghijklmnopqrstuvwxyz''"

fun toStringRadix :: "nat \<Rightarrow> nat \<Rightarrow> string" where
  "toStringRadix r n =
     (if r < 2 \<or> n < r then [digitChars ! n]
      else toStringRadix r (n div r) @ [digitChars ! (n mod r)])"

declare toStringRadix.simps [simp del]

text \<open>The number a string of decimal digits denotes (used to state what
  \<open>toString(10)\<close> returns).\<close>

definition decimalValue :: "string \<Rightarrow> nat" where
  "decimalValue s = foldl (\<lambda>a c. 10 * a + ((of_char c :: nat) - 48)) 0 s"

section \<open>Response formatting (\<open>utils/responseFormatter.ts\<close>)\<close>

definition formatRpcResponse :: "jsval \<Rightarrow> string \<Rightarrow> jsval" where
  "formatRpcResponse response sessionId =
     (if \<not> truthy response \<or> \<not> isObjectType response
      then JObj [(''error'', JStr ''Invalid response format'')]
      else
        let rid = getProp ''id'' response;
            jsonrpc = getProp ''jsonrpc'' response;
            result = getProp ''result'' response;
            formattedResult =
              (case result of
                 JStr s \<Rightarrow>
                   if startsWith s ''0x''
                   then (case BigInt s of
                           Some n \<Rightarrow> JStr (toStringRadix 10 n)
                         | None \<Rightarrow> JStr ''Error converting result to decimal'')
                   else result
               | _ \<Rightarrow> result)
        in JObj [(''id'', rid), (''jsonrpc'', jsonrpc),
                 (''sessionId'', JStr sessionId), (''result'', formattedResult)])"

section \<open>Data model (\<open>types/index.ts\<close>)\<close>

text \<open>
  \<open>RpcConfig\<close> is the type the code gives to an element of the parsed file's
  \<open>chains\<close> array. Nothing checks an element at run time, so each field may be
  absent (\<open>None\<close>, JavaScript's \<open>undefined\<close>). A field that is present has its
  declared type: \<open>chainId\<close> a number, \<open>name\<close> a string, \<open>urls\<close> an array of
  strings.
\<close>

record RpcConfig =
  chainId :: "int option"
  name :: "string option"
  urls :: "string list option"

text \<open>Timestamps are milliseconds since the epoch.\<close>

record RpcHealth =
  url :: string
  healthy :: bool
  lastCheck :: int
  responseTime :: int
  failCount :: nat

record RpcSession =
  s_id :: string
  s_url :: string
  s_chainId :: int
  createdAt :: int
  lastUsed :: int
  requestCount :: nat

text \<open>The options of \<open>config/environment.ts\<close> that the modelled code reads.\<close>

record environment =
  configTtl :: nat
  healthTtl :: nat
  sessionTtl :: nat
  maxFailCount :: nat

text \<open>
  The errors the modelled code throws: the four messages \<open>Chain not found\<close>,
  \<open>No healthy RPC endpoints available\<close>, \<open>Invalid RPC configuration format\<close> and
  \<open>Invalid session ID\<close>; the \<open>TypeError\<close> of reading a method of \<open>undefined\<close>; and
  the failure of reading or parsing the configuration file.
\<close>

datatype error =
    ChainNotFound
  | NoHealthyRpc
  | InvalidConfig
  | InvalidSession
  | TypeError
  | FileError

section \<open>The outside world\<close>

text \<open>
  What an HTTP POST through axios yields: a response with its status and decoded body
  (axios leaves a body that is not JSON as a string), or no response at all (refused
  connection, timeout). axios resolves the promise for a status from 200 to 299 and
  rejects it otherwise, with \<open>error.response\<close> set exactly when there was a response.
\<close>

datatype http_outcome =
    HttpResponse nat jsval
  | NoResponse

text \<open>
  What \<open>JSON.parse\<close> of the configuration file yields, as far as \<open>loadRpcConfig\<close>
  looks at it. The content is \<open>null\<close> or another value. Of another value the code
  reads the \<open>chains\<close> member: it is \<open>undefined\<close> when the content has no such
  member (an object without it, a number, a string, a boolean, an array), or it is
  \<open>null\<close>, a boolean, a number, a string, an object, or an array of elements. An
  element is read through its declared type \<open>RpcConfig\<close>, each member of which may
  be absent; \<open>urls\<close> is also absent (\<open>None\<close>) when the member is not an array.
  An entry of \<open>urls\<close> that is not a string is outside the declared type and is not
  covered: what a probe of such a value does is decided inside axios and the Redis
  client.
\<close>

datatype chains_member =
    NoMember
  | NullMember
  | BoolMember bool
  | NumMember int
  | StrMember string
  | ObjectMember
  | ArrayMember "RpcConfig list"

datatype parsed_file =
    NullContent
  | Content chains_member

datatype file_read =
    ReadFailed
  | Parsed parsed_file

text \<open>\<open>!chains\<close> is \<open>\<not> memberTruthy chains\<close>.\<close>

fun memberTruthy :: "chains_member \<Rightarrow> bool" where
  "memberTruthy NoMember = False"
| "memberTruthy NullMember = False"
| "memberTruthy (BoolMember b) = b"
| "memberTruthy (NumMember n) = (n \<noteq> 0)"
| "memberTruthy (StrMember s) = (s \<noteq> [])"
| "memberTruthy ObjectMember = True"
| "memberTruthy (ArrayMember cs) = True"

text \<open>\<open>Array.isArray(chains)\<close>, and the elements of an array.\<close>

fun isArrayMember :: "chains_member \<Rightarrow> bool" where
  "isArrayMember (ArrayMember cs) = True"
| "isArrayMember m = False"

fun memberElements :: "chains_member \<Rightarrow> RpcConfig list" where
  "memberElements (ArrayMember cs) = cs"
| "memberElements m = []"

text \<open>
  One top-level call runs against a fixed world: the clock reading, for each URL the
  outcome of the \<open>net_version\<close> probe and the time it took, the outcome of the
  forwarded POST, the content of the configuration file, and the identifier that
  \<open>uuidv4()\<close> returns.
\<close>

record world =
  w_now :: int
  w_probe :: "string \<Rightarrow> http_outcome \<times> int"
  w_post :: "string \<Rightarrow> jsval \<Rightarrow> http_outcome"
  w_file :: file_read
  w_uuid :: string

section \<open>The key-value store and the process state\<close>

text \<open>
  The commands \<open>loadRpcConfig\<close> queues on a Redis transaction (\<open>multi\<close>): \<open>del\<close> of
  chain keys, \<open>hDel\<close> of a field of the health hash, \<open>hSet\<close> of the \<open>config\<close> field
  of a chain key, \<open>expire\<close> of a chain key and of the health hash. A chain key is
  \<open>rpc:chain:\<close> followed by the element's \<open>chainId\<close>, which may be absent.
\<close>

datatype kv_cmd =
    Del "int option list"
  | HDel string
  | HSet "int option" RpcConfig
  | Expire "int option" nat
  | ExpireHealth nat

text \<open>The actions whose order the claims speak of, recorded as they happen.\<close>

datatype event =
    EvProbe string
  | EvReload
  | EvExec "kv_cmd list"
  | EvForward string

text \<open>
  The store holds the health hash (field: URL), the chain keys and the session keys,
  each as an association list in which a key occurs once; chain and session keys carry
  the time to live last set on them. \<open>unhealthyErrors\<close> is the in-memory window of
  \<open>RpcManager\<close>. \<open>trace\<close> is the history of actions. The store is assumed connected:
  no Redis command fails, and the passing of time (expiry of keys) is not modelled.
\<close>

record state =
  health :: "(string \<times> RpcHealth) list"
  health_ttl :: "nat option"
  chains :: "(int option \<times> RpcConfig \<times> nat option) list"
  sessions :: "(string \<times> RpcSession \<times> nat) list"
  unhealthyErrors :: "int list"
  trace :: "event list"

fun apply_cmd :: "kv_cmd \<Rightarrow> state \<Rightarrow> state" where
  "apply_cmd (Del ks) st = st\<lparr>chains := filter (\<lambda>(k, v). k \<notin> set ks) (chains st)\<rparr>"
| "apply_cmd (HDel u) st =
     (let h = AList.delete u (health st)
      in st\<lparr>health := h, health_ttl := (if h = [] then None else health_ttl st)\<rparr>)"
| "apply_cmd (HSet k c) st =
     st\<lparr>chains :=
          AList.update k
            (c, (case map_of (chains st) k of Some (c0, t) \<Rightarrow> t | None \<Rightarrow> None))
            (chains st)\<rparr>"
| "apply_cmd (Expire k t) st =
     (case map_of (chains st) k of
        Some (c, t0) \<Rightarrow> st\<lparr>chains := AList.update k (c, Some t) (chains st)\<rparr>
      | None \<Rightarrow> st)"
| "apply_cmd (ExpireHealth t) st =
     st\<lparr>health_ttl := (if health st = [] then None else Some t)\<rparr>"

text \<open>\<open>multi.exec()\<close>: the queued commands take effect in order, as one unit.\<close>

definition exec :: "kv_cmd list \<Rightarrow> state \<Rightarrow> state" where
  "exec cmds st = (fold apply_cmd cmds st)\<lparr>trace := trace st @ [EvExec cmds]\<rparr>"

section \<open>Health checker (\<open>core/healthChecker.ts\<close>)\<close>

definition updateHealthStatus :: "RpcHealth \<Rightarrow> state \<Rightarrow> state" where
  "updateHealthStatus h st = st\<lparr>health := AList.update (url h) h (health st)\<rparr>"

text \<open>The warning logged when the count reaches \<open>maxFailCount\<close> is not modelled.\<close>

definition incrementFailCount :: "string \<Rightarrow> state \<Rightarrow> nat" where
  "incrementFailCount u st =
     (case map_of (health st) u of
        Some h \<Rightarrow> failCount h + 1
      | None \<Rightarrow> 1)"

text \<open>
  \<open>checkHealth\<close>: the \<open>try\<close> branch runs when axios resolves (status 200 to 299), the
  \<open>catch\<close> branch otherwise. \<open>response.data?.result !== undefined\<close> is
  \<open>getProp ''result'' data \<noteq> JUndefined\<close>.
\<close>

definition checkHealth :: "world \<Rightarrow> string \<Rightarrow> state \<Rightarrow> RpcHealth \<times> state" where
  "checkHealth w u st =
     (let st0 = st\<lparr>trace := trace st @ [EvProbe u]\<rparr>;
          failed =
            (let h = \<lparr>url = u, healthy = False, lastCheck = w_now w,
                      responseTime = snd (w_probe w u),
                      failCount = incrementFailCount u st0\<rparr>
             in (h, updateHealthStatus h st0))
      in case fst (w_probe w u) of
           HttpResponse status dat \<Rightarrow>
             if 200 \<le> status \<and> status < 300
             then
               let isHealthy = (status = 200 \<and> getProp ''result'' dat \<noteq> JUndefined);
                   h = \<lparr>url = u, healthy = isHealthy, lastCheck = w_now w,
                        responseTime = snd (w_probe w u), failCount = 0\<rparr>
               in (h, updateHealthStatus h st0)
             else failed
         | NoResponse \<Rightarrow> failed)"

section \<open>Configuration loader, selector and session store (\<open>core/rpcManager.ts\<close>)\<close>

text \<open>The inner loop of \<open>loadRpcConfig\<close>: one awaited probe per URL of a chain.\<close>

definition probeAll :: "world \<Rightarrow> string list \<Rightarrow> state \<Rightarrow> state" where
  "probeAll w us st = fold (\<lambda>u s. snd (checkHealth w u s)) us st"

text \<open>
  The body of the loop over the chains: queue \<open>hSet\<close> and \<open>expire\<close> for the chain
  key, then probe the chain's URLs at once (the probes go to the store directly, not
  through the queue).
\<close>

definition loadChain ::
  "environment \<Rightarrow> world \<Rightarrow> RpcConfig \<times> string list \<Rightarrow> kv_cmd list \<times> state
     \<Rightarrow> kv_cmd list \<times> state" where
  "loadChain env w cu ms =
     (case (cu, ms) of
        ((config, us), (multi, st)) \<Rightarrow>
          (multi @ [HSet (chainId config) config, Expire (chainId config) (configTtl env)],
           probeAll w us st))"

text \<open>
  \<open>loadRpcConfig\<close>. Reading \<open>configFile.chains\<close> of a \<open>null\<close> content throws a
  \<open>TypeError\<close>. \<open>those (map urls cs)\<close> is \<open>None\<close> when some element has no
  \<open>urls\<close>: then \<open>chain.urls.forEach\<close> throws a \<open>TypeError\<close> while \<open>newUrls\<close> is
  collected, before anything is written.
\<close>

definition loadRpcConfig :: "environment \<Rightarrow> world \<Rightarrow> state \<Rightarrow> (error + unit) \<times> state" where
  "loadRpcConfig env w st =
     (let st0 = st\<lparr>trace := trace st @ [EvReload]\<rparr>
      in case w_file w of
           ReadFailed \<Rightarrow> (Inl FileError, st0)
         | Parsed NullContent \<Rightarrow> (Inl TypeError, st0)
         | Parsed (Content chainsMember) \<Rightarrow>
             if \<not> memberTruthy chainsMember \<or> \<not> isArrayMember chainsMember
             then (Inl InvalidConfig, st0)
             else
               let cs = memberElements chainsMember
               in (case those (map urls cs) of
                     None \<Rightarrow> (Inl TypeError, st0)
                   | Some uss \<Rightarrow>
                       let currentUrls = map fst (health st0);
                           newUrls = concat uss;
                           urlsToRemove = filter (\<lambda>u. u \<notin> set newUrls) currentUrls;
                           existingKeys = map fst (chains st0);
                           multi0 = (if existingKeys \<noteq> [] then [Del existingKeys] else [])
                                      @ map HDel urlsToRemove;
                           (multi1, st1) = fold (loadChain env w) (zip cs uss) (multi0, st0);
                           multi2 = multi1 @ [ExpireHealth (healthTtl env)]
                       in (Inr (), exec multi2 st1)))"

definition getChainConfig :: "int \<Rightarrow> state \<Rightarrow> RpcConfig option" where
  "getChainConfig c st = map_option fst (map_of (chains st) (Some c))"

text \<open>\<open>ERROR_THRESHOLD\<close> and \<open>ERROR_TIME_WINDOW\<close> (milliseconds).\<close>

definition ERROR_THRESHOLD :: nat where
  "ERROR_THRESHOLD = 3"

definition ERROR_TIME_WINDOW :: int where
  "ERROR_TIME_WINDOW = 10000"

definition checkForceReload :: "environment \<Rightarrow> world \<Rightarrow> state \<Rightarrow> (error + unit) \<times> state" where
  "checkForceReload env w st =
     (let now = w_now w;
          errs = filter (\<lambda>t. now - t \<le> ERROR_TIME_WINDOW) (unhealthyErrors st) @ [now]
      in if length errs \<ge> ERROR_THRESHOLD
         then loadRpcConfig env w (st\<lparr>unhealthyErrors := []\<rparr>)
         else (Inr (), st\<lparr>unhealthyErrors := errs\<rparr>))"

text \<open>
  The filter of \<open>getHealthyRpcUrl\<close>: a URL without a record parses as \<open>{}\<close>, whose
  \<open>healthy\<close> is \<open>undefined\<close>, so it is dropped.
\<close>

definition isEligible :: "environment \<Rightarrow> (string \<times> RpcHealth) list \<Rightarrow> string \<Rightarrow> bool" where
  "isEligible env hs u =
     (case map_of hs u of
        None \<Rightarrow> False
      | Some h \<Rightarrow> healthy h \<and> failCount h < maxFailCount env)"

text \<open>The sort key; every URL that is sorted has a record.\<close>

definition responseTimeOf :: "(string \<times> RpcHealth) list \<Rightarrow> string \<Rightarrow> int" where
  "responseTimeOf hs u = (case map_of hs u of Some h \<Rightarrow> responseTime h | None \<Rightarrow> 0)"

text \<open>
  \<open>getHealthyRpcUrl\<close>. \<open>Array.prototype.sort\<close> is stable and the comparator is the
  difference of two integers, so the sort is a stable sort by \<open>responseTime\<close>
  (\<open>sort_key\<close>). A stored configuration without \<open>urls\<close> would make
  \<open>config.urls.filter\<close> throw a \<open>TypeError\<close>. An error thrown by the reload inside
  \<open>checkForceReload\<close> leaves \<open>getHealthyRpcUrl\<close> in place of \<open>NoHealthyRpc\<close>.
\<close>

definition getHealthyRpcUrl :: "environment \<Rightarrow> world \<Rightarrow> int \<Rightarrow> state \<Rightarrow> (error + string) \<times> state" where
  "getHealthyRpcUrl env w c st =
     (case getChainConfig c st of
        None \<Rightarrow> (Inl ChainNotFound, st)
      | Some config \<Rightarrow>
          (case urls config of
             None \<Rightarrow> (Inl TypeError, st)
           | Some us \<Rightarrow>
               let healthyUrls = filter (isEligible env (health st)) us
               in if healthyUrls = []
                  then (case checkForceReload env w st of
                          (Inl e, st') \<Rightarrow> (Inl e, st')
                        | (Inr x, st') \<Rightarrow> (Inl NoHealthyRpc, st'))
                  else (Inr (hd (sort_key (responseTimeOf (health st)) healthyUrls)), st)))"

definition createSession :: "environment \<Rightarrow> world \<Rightarrow> int \<Rightarrow> state \<Rightarrow> (error + RpcSession) \<times> state" where
  "createSession env w c st =
     (case getHealthyRpcUrl env w c st of
        (Inl e, st') \<Rightarrow> (Inl e, st')
      | (Inr u, st') \<Rightarrow>
          let session = \<lparr>s_id = w_uuid w, s_url = u, s_chainId = c, createdAt = w_now w,
                          lastUsed = w_now w, requestCount = 0\<rparr>
          in (Inr session,
              st'\<lparr>sessions := AList.update (s_id session) (session, sessionTtl env) (sessions st')\<rparr>))"

definition getSession :: "string \<Rightarrow> state \<Rightarrow> RpcSession option" where
  "getSession sessionId st = map_option fst (map_of (sessions st) sessionId)"

definition updateSession :: "environment \<Rightarrow> world \<Rightarrow> RpcSession \<Rightarrow> state \<Rightarrow> state" where
  "updateSession env w session st =
     (let session' = session\<lparr>lastUsed := w_now w, requestCount := requestCount session + 1\<rparr>
      in st\<lparr>sessions := AList.update (s_id session') (session', sessionTtl env) (sessions st)\<rparr>)"

definition deleteSession :: "string \<Rightarrow> state \<Rightarrow> state" where
  "deleteSession sessionId st = st\<lparr>sessions := AList.delete sessionId (sessions st)\<rparr>"

text \<open>
  \<open>getChainStats\<close>. The mean is a floating-point quotient in the code and a real
  one here. \<open>filter(health => health.url)\<close> keeps the records found (a record's
  \<open>url\<close> is falsy only when it is the empty string).
\<close>

record ChainStats =
  totalSessions :: nat
  activeUrls :: nat
  healthyUrls :: nat
  averageResponseTime :: real

definition getChainStats :: "environment \<Rightarrow> int \<Rightarrow> state \<Rightarrow> error + ChainStats" where
  "getChainStats env c st =
     (case getChainConfig c st of
        None \<Rightarrow> Inl ChainNotFound
      | Some config \<Rightarrow>
          (case urls config of
             None \<Rightarrow> Inl TypeError
           | Some us \<Rightarrow>
               let chainSessions =
                     length (filter (\<lambda>(k, session, ttl). s_chainId session = c) (sessions st));
                   urlHealths =
                     filter (\<lambda>h. url h \<noteq> [])
                       (concat (map (\<lambda>u. case map_of (health st) u of
                                             Some h \<Rightarrow> [h] | None \<Rightarrow> []) us));
                   healthyN =
                     length (filter (\<lambda>h. healthy h \<and> failCount h < maxFailCount env) urlHealths);
                   avg = (if length urlHealths > 0
                          then real_of_int (sum_list (map responseTime urlHealths))
                                 / real (length urlHealths)
                          else 0)
               in Inr \<lparr>totalSessions = chainSessions, activeUrls = length urlHealths,
                        healthyUrls = healthyN, averageResponseTime = avg\<rparr>))"

section \<open>Request executor (\<open>services/rpc.service.ts\<close>)\<close>

definition getEndpoint :: "environment \<Rightarrow> world \<Rightarrow> int \<Rightarrow> state \<Rightarrow> (error + string) \<times> state" where
  "getEndpoint env w c st =
     (case createSession env w c st of
        (Inl e, st') \<Rightarrow> (Inl e, st')
      | (Inr session, st') \<Rightarrow> (Inr (s_url session), st'))"

text \<open>
  The first half of \<open>executeRequest\<close>: the session to use. \<open>if (sessionId)\<close> treats
  an absent header and the empty string alike.
\<close>

definition resolveSession ::
  "environment \<Rightarrow> world \<Rightarrow> int \<Rightarrow> string option \<Rightarrow> state \<Rightarrow> (error + RpcSession) \<times> state" where
  "resolveSession env w c sessionId st =
     (case sessionId of
        None \<Rightarrow> createSession env w c st
      | Some sid \<Rightarrow>
          if sid = [] then createSession env w c st
          else (case getSession sid st of
                  None \<Rightarrow> (Inl InvalidSession, st)
                | Some existingSession \<Rightarrow>
                    if s_chainId existingSession \<noteq> c
                    then createSession env w c (deleteSession sid st)
                    else (Inr existingSession, st)))"

text \<open>
  The second half: the forwarded POST. On a resolved promise the session is updated
  and the body formatted. In the \<open>catch\<close> branch \<open>checkHealth\<close> is awaited, then
  \<open>error.response?.data\<close> is tested for truthiness.
\<close>

definition forwardRequest ::
  "environment \<Rightarrow> world \<Rightarrow> jsval \<Rightarrow> RpcSession \<Rightarrow> state \<Rightarrow> (error + jsval) \<times> state" where
  "forwardRequest env w rpcRequest session st =
     (let st0 = st\<lparr>trace := trace st @ [EvForward (s_url session)]\<rparr>;
          failed = (\<lambda>dat.
            let st1 = snd (checkHealth w (s_url session) st0)
            in if truthy dat then (Inr (formatRpcResponse dat (s_id session)), st1)
               else (Inl NoHealthyRpc, st1))
      in case w_post w (s_url session) rpcRequest of
           HttpResponse status dat \<Rightarrow>
             if 200 \<le> status \<and> status < 300
             then (Inr (formatRpcResponse dat (s_id session)),
                   updateSession env w session st0)
             else failed dat
         | NoResponse \<Rightarrow> failed JUndefined)"

definition executeRequest ::
  "environment \<Rightarrow> world \<Rightarrow> int \<Rightarrow> jsval \<Rightarrow> string option \<Rightarrow> state \<Rightarrow> (error + jsval) \<times> state" where
  "executeRequest env w c rpcRequest sessionId st =
     (case resolveSession env w c sessionId st of
        (Inl e, st') \<Rightarrow> (Inl e, st')
      | (Inr session, st') \<Rightarrow> forwardRequest env w rpcRequest session st')"

section \<open>Notions used to state the claims\<close>

text \<open>The invariant of the health hash: a record marked healthy has no failures counted.\<close>

definition healthInvariant :: "state \<Rightarrow> bool" where
  "healthInvariant st = list_all (\<lambda>(u, h). healthy h \<longrightarrow> failCount h = 0) (health st)"

text \<open>
  The commands \<open>loadRpcConfig\<close> has queued before its loop over the chains: the
  deletion of the existing chain keys (when there are any) and of the health fields
  whose URL is not in the new file.
\<close>

definition removalQueue :: "state \<Rightarrow> string list \<Rightarrow> kv_cmd list" where
  "removalQueue st newUrls =
     (if map fst (chains st) \<noteq> [] then [Del (map fst (chains st))] else [])
       @ map HDel (filter (\<lambda>u. u \<notin> set newUrls) (map fst (health st)))"

text \<open>The commands the loop of \<open>loadRpcConfig\<close> queues for the chains of the file.\<close>

definition chainQueue :: "environment \<Rightarrow> RpcConfig list \<Rightarrow> kv_cmd list" where
  "chainQueue env cs =
     concat (map (\<lambda>config. [HSet (chainId config) config,
                               Expire (chainId config) (configTtl env)]) cs)"

text \<open>The record \<open>createSession\<close> builds for chain \<open>c\<close> and the selected URL \<open>u\<close>.\<close>

definition newSession :: "world \<Rightarrow> int \<Rightarrow> string \<Rightarrow> RpcSession" where
  "newSession w c u = \<lparr>s_id = w_uuid w, s_url = u, s_chainId = c, createdAt = w_now w,
                        lastUsed = w_now w, requestCount = 0\<rparr>"

text \<open>
  What the \<open>catch\<close> branch of \<open>executeRequest\<close> finds in \<open>error.response?.data\<close>.
\<close>

definition errorResponseData :: "http_outcome \<Rightarrow> jsval" where
  "errorResponseData outcome =
     (case outcome of HttpResponse status dat \<Rightarrow> dat | NoResponse \<Rightarrow> JUndefined)"

text \<open>Whether axios rejects the promise of a request with this outcome.\<close>

definition rejected :: "http_outcome \<Rightarrow> bool" where
  "rejected outcome =
     (case outcome of
        HttpResponse status dat \<Rightarrow> \<not> (200 \<le> status \<and> status < 300)
      | NoResponse \<Rightarrow> True)"

section \<open>Concrete inputs\<close>

definition env0 :: environment where
  "env0 = \<lparr>configTtl = 86400, healthTtl = 3600, sessionTtl = 3600, maxFailCount = 3\<rparr>"

definition emptyState :: state where
  "emptyState = \<lparr>health = [], health_ttl = None, chains = [], sessions = [],
                  unhealthyErrors = [], trace = []\<rparr>"

text \<open>A JSON-RPC error reply, as an upstream sends it for an unknown method.\<close>

definition errorBody :: jsval where
  "errorBody =
     JObj [(''jsonrpc'', JStr ''2.0''), (''id'', JNum 1),
           (''error'', JObj [(''code'', JNum (- 32601)),
                             (''message'', JStr ''Method not found'')])]"

text \<open>A world in which every probe is answered with status 200 and the error reply.\<close>

definition world1 :: world where
  "world1 = \<lparr>w_now = 1000, w_probe = (\<lambda>u. (HttpResponse 200 errorBody, 12)),
             w_post = (\<lambda>u r. NoResponse), w_file = ReadFailed, w_uuid = ''id1''\<rparr>"

text \<open>A store in which URL \<open>A\<close> has failed twice.\<close>

definition state1 :: state where
  "state1 =
     emptyState\<lparr>health :=
       [(''A'', \<lparr>url = ''A'', healthy = False, lastCheck = 0, responseTime = 5,
                 failCount = 2\<rparr>)]\<rparr>"

text \<open>
  Chain 1 with four URLs: \<open>E\<close> was never probed, \<open>C\<close> has failed three times,
  \<open>A\<close> and \<open>B\<close> are healthy and equally fast. \<open>D\<close> is healthy and faster, but
  belongs to no chain.
\<close>

definition cfg1 :: RpcConfig where
  "cfg1 = \<lparr>chainId = Some 1, name = Some ''mainnet'',
            urls = Some [''E'', ''C'', ''A'', ''B'']\<rparr>"

definition state2 :: state where
  "state2 =
     emptyState\<lparr>
       chains := [(Some 1, cfg1, Some 86400)],
       health :=
         [(''A'', \<lparr>url = ''A'', healthy = True, lastCheck = 0, responseTime = 10,
                   failCount = 0\<rparr>),
          (''B'', \<lparr>url = ''B'', healthy = True, lastCheck = 0, responseTime = 10,
                   failCount = 0\<rparr>),
          (''C'', \<lparr>url = ''C'', healthy = False, lastCheck = 0, responseTime = 7,
                   failCount = 3\<rparr>),
          (''D'', \<lparr>url = ''D'', healthy = True, lastCheck = 0, responseTime = 5,
                   failCount = 0\<rparr>)]\<rparr>"

text \<open>
  A world in which no probe gets a response, the forwarded POST is answered with
  status 500 and the error reply, and the configuration file holds chain 1.
\<close>

definition world2 :: world where
  "world2 = \<lparr>w_now = 20000, w_probe = (\<lambda>u. (NoResponse, 5000)),
             w_post = (\<lambda>u r. HttpResponse 500 errorBody),
             w_file = Parsed (Content (ArrayMember [cfg1])), w_uuid = ''id2''\<rparr>"

definition request1 :: jsval where
  "request1 =
     JObj [(''jsonrpc'', JStr ''2.0''), (''method'', JStr ''eth_foo''),
           (''params'', JArr []), (''id'', JNum 1)]"

text \<open>A healthy reply to \<open>net_version\<close>.\<close>

definition versionBody :: jsval where
  "versionBody = JObj [(''jsonrpc'', JStr ''2.0''), (''id'', JNum 1), (''result'', JStr ''1'')]"

text \<open>Elements of a configuration file without \<open>name\<close> and without \<open>urls\<close>.\<close>

definition cfgNoName :: RpcConfig where
  "cfgNoName = \<lparr>chainId = Some 1, name = None, urls = Some [''A'']\<rparr>"


text \<open>
  Worlds in which every probe succeeds and the configuration file holds one element
  without \<open>name\<close>; one complete element and one without \<open>urls\<close>; an object
  without \<open>chains\<close> member.
\<close>

definition world3 :: world where
  "world3 = \<lparr>w_now = 20000, w_probe = (\<lambda>u. (HttpResponse 200 versionBody, 12)),
             w_post = (\<lambda>u r. NoResponse),
             w_file = Parsed (Content (ArrayMember [cfgNoName])), w_uuid = ''id3''\<rparr>"


definition world5 :: world where
  "world5 = world3\<lparr>w_file := Parsed (Content NoMember)\<rparr>"



text \<open>
  Chain 1 with the URLs \<open>C\<close> (failed three times) and \<open>E\<close> (never probed): no
  URL is eligible. The window holds one old and one recent entry in \<open>state3\<close>, two
  recent entries in \<open>state4\<close> (the clock of the worlds above reads 20000).
\<close>

definition cfg2 :: RpcConfig where
  "cfg2 = \<lparr>chainId = Some 1, name = Some ''mainnet'', urls = Some [''C'', ''E'']\<rparr>"

definition state3 :: state where
  "state3 = state2\<lparr>chains := [(Some 1, cfg2, Some 86400)], unhealthyErrors := [1000, 16000]\<rparr>"

definition state4 :: state where
  "state4 = state2\<lparr>chains := [(Some 1, cfg2, Some 86400)], unhealthyErrors := [15000, 16000]\<rparr>"

text \<open>
  The store of \<open>state2\<close> with a session \<open>s1\<close> pinned to \<open>A\<close> for chain 1; chain
  137 is not configured in it. In \<open>state6\<close> chain 137 is configured with the URL
  \<open>D\<close>.
\<close>

definition session1 :: RpcSession where
  "session1 = \<lparr>s_id = ''s1'', s_url = ''A'', s_chainId = 1, createdAt = 500, lastUsed = 900,
                requestCount = 4\<rparr>"

definition state5 :: state where
  "state5 = state2\<lparr>sessions := [(''s1'', session1, 3600)]\<rparr>"

definition cfg137 :: RpcConfig where
  "cfg137 = \<lparr>chainId = Some 137, name = Some ''polygon'', urls = Some [''D'']\<rparr>"

definition state6 :: state where
  "state6 = state5\<lparr>chains := [(Some 1, cfg1, Some 86400), (Some 137, cfg137, Some 86400)]\<rparr>"

text \<open>A world in which the forwarded POST is answered with status 200 and a result.\<close>

definition world6 :: world where
  "world6 =
     world1\<lparr>w_post := (\<lambda>u r. HttpResponse 200
                (JObj [(''jsonrpc'', JStr ''2.0''), (''id'', JNum 1),
                       (''result'', JStr ''0x10'')]))\<rparr>"

section \<open>Properties of the integer conversions\<close>

lemma nat_less_16_cases:
  "(d::nat) < 16 \<Longrightarrow>
     d = 0 \<or> d = 1 \<or> d = 2 \<or> d = 3 \<or> d = 4 \<or> d = 5 \<or> d = 6 \<or> d = 7 \<or>
     d = 8 \<or> d = 9 \<or> d = 10 \<or> d = 11 \<or> d = 12 \<or> d = 13 \<or> d = 14 \<or> d = 15"
  by arith

lemma hexDigitValue_digitChars:
  "d < 16 \<Longrightarrow> hexDigitValue (digitChars ! d) = Some d"
  by (drule nat_less_16_cases) (elim disjE; simp add: hexDigitValue_def digitChars_def)

lemma nat_less_10_cases:
  "(d::nat) < 10 \<Longrightarrow>
     d = 0 \<or> d = 1 \<or> d = 2 \<or> d = 3 \<or> d = 4 \<or> d = 5 \<or> d = 6 \<or> d = 7 \<or>
     d = 8 \<or> d = 9"
  by arith

lemma decimal_digitChars:
  "d < 10 \<Longrightarrow> (of_char (digitChars ! d) :: nat) - 48 = d"
  by (drule nat_less_10_cases) (elim disjE; simp add: digitChars_def)

lemma parseHexDigits_append:
  "parseHexDigits acc (xs @ ys) =
     (case parseHexDigits acc xs of None \<Rightarrow> None | Some a \<Rightarrow> parseHexDigits a ys)"
  by (induction xs arbitrary: acc) (auto split: option.splits)

lemma parseHexDigits_toStringRadix:
  "parseHexDigits 0 (toStringRadix 16 n) = Some n"
proof (induction n rule: less_induct)
  case (less n)
  show ?case
  proof (cases "n < 16")
    case True
    then show ?thesis
      by (simp add: toStringRadix.simps [of 16 n] hexDigitValue_digitChars)
  next
    case False
    then have "n div 16 < n" by simp
    then have "parseHexDigits 0 (toStringRadix 16 (n div 16)) = Some (n div 16)"
      by (rule less.IH)
    moreover have "n mod 16 < 16" by simp
    ultimately show ?thesis
      using False
      by (simp add: toStringRadix.simps [of 16 n] parseHexDigits_append
            hexDigitValue_digitChars)
  qed
qed

lemma decimalValue_toStringRadix:
  "decimalValue (toStringRadix 10 n) = n"
proof (induction n rule: less_induct)
  case (less n)
  show ?case
  proof (cases "n < 10")
    case True
    then show ?thesis
      by (simp add: toStringRadix.simps [of 10 n] decimalValue_def decimal_digitChars)
  next
    case False
    then have "n div 10 < n" by simp
    then have "decimalValue (toStringRadix 10 (n div 10)) = n div 10"
      by (rule less.IH)
    moreover have "n mod 10 < 10" by simp
    ultimately show ?thesis
      using False
      by (simp add: toStringRadix.simps [of 10 n] decimalValue_def decimal_digitChars)
  qed
qed

lemma toStringRadix_nonempty: "toStringRadix r n \<noteq> []"
  by (subst toStringRadix.simps) simp

lemma parseHexDigits_all_digits:
  "parseHexDigits acc s = Some v \<Longrightarrow> c \<in> set s \<Longrightarrow> hexDigitValue c \<noteq> None"
  by (induction s arbitrary: acc) (auto split: option.splits)

lemma hexDigit_not_whitespace:
  "hexDigitValue c \<noteq> None \<Longrightarrow> \<not> isStrWhiteSpaceChar c"
  by (auto simp: hexDigitValue_def isStrWhiteSpaceChar_def Let_def split: if_splits)

lemma dropWhile_none:
  "(\<And>c. c \<in> set s \<Longrightarrow> \<not> P c) \<Longrightarrow> dropWhile P s = s"
  by (cases s) auto

lemma trimString_hex:
  "trimString (''0x'' @ toStringRadix 16 n) = ''0x'' @ toStringRadix 16 n"
proof -
  have nows: "\<not> isStrWhiteSpaceChar c" if "c \<in> set (''0x'' @ toStringRadix 16 n)" for c
  proof (cases "c \<in> set (toStringRadix 16 n)")
    case True
    then show ?thesis
      using parseHexDigits_all_digits [OF parseHexDigits_toStringRadix]
        hexDigit_not_whitespace by blast
  next
    case False
    with that have "c = CHR ''0'' \<or> c = CHR ''x''" by auto
    then show ?thesis by (auto simp: isStrWhiteSpaceChar_def)
  qed
  have "dropWhile isStrWhiteSpaceChar (''0x'' @ toStringRadix 16 n) = ''0x'' @ toStringRadix 16 n"
    by simp (simp add: isStrWhiteSpaceChar_def)
  moreover have "dropWhile isStrWhiteSpaceChar (rev (''0x'' @ toStringRadix 16 n))
      = rev (''0x'' @ toStringRadix 16 n)"
    by (rule dropWhile_none) (use nows in auto)
  ultimately show ?thesis
    unfolding trimString_def by (simp only: rev_rev_ident)
qed

lemma BigInt_hex: "BigInt (''0x'' @ toStringRadix 16 n) = Some n"
  unfolding BigInt_def trimString_hex
  by (simp add: startsWith_def toStringRadix_nonempty parseHexDigits_toStringRadix)

lemmas toStringRadix_eval =
  toStringRadix.simps [of r "numeral k" for r k]
  toStringRadix.simps [of r 0 for r]
  toStringRadix.simps [of r "Suc 0" for r]

lemmas BigInt_eval =
  BigInt_def trimString_def isStrWhiteSpaceChar_def startsWith_def hexDigitValue_def

section \<open>Claims about the response formatter\<close>

text \<open>
  Claim C6. For every non-negative integer \<open>n\<close>, formatting a reply whose \<open>result\<close>
  is the string \<open>0x\<close> followed by the hexadecimal digits of \<open>n\<close> gives a reply
  whose \<open>result\<close> is the decimal string of \<open>n\<close> (a string of decimal digits that
  denotes \<open>n\<close>, whatever the size of \<open>n\<close>); when \<open>result\<close> begins with \<open>0x\<close> and
  \<open>BigInt\<close> rejects it, \<open>result\<close> becomes \<open>Error converting result to decimal\<close>;
  a \<open>result\<close> that is not a string passes through unchanged.
\<close>

theorem formatRpcResponse_hex_roundtrip:
  "(getProp ''result'' response = JStr (''0x'' @ toStringRadix 16 n) \<longrightarrow>
      getProp ''result'' (formatRpcResponse response sessionId) = JStr (toStringRadix 10 n)
      \<and> decimalValue (toStringRadix 10 n) = n)
   \<and> (isObjectType response \<and> truthy response \<and> getProp ''result'' response = JStr s
        \<and> startsWith s ''0x'' \<and> BigInt s = None \<longrightarrow>
      getProp ''result'' (formatRpcResponse response sessionId)
        = JStr ''Error converting result to decimal'')
   \<and> (isObjectType response \<and> truthy response
        \<and> (\<forall>s. getProp ''result'' response \<noteq> JStr s) \<longrightarrow>
      getProp ''result'' (formatRpcResponse response sessionId) = getProp ''result'' response)"
proof (intro conjI impI)
  let ?h = "''0x'' @ toStringRadix 16 n"
  assume r: "getProp ''result'' response = JStr ?h"
  then obtain kvs where obj: "response = JObj kvs"
    by (cases response) (auto simp: getProp_def)
  have sw: "startsWith ?h ''0x''"
    by (simp add: startsWith_def)
  show "getProp ''result'' (formatRpcResponse response sessionId) = JStr (toStringRadix 10 n)"
    unfolding formatRpcResponse_def Let_def r
    by (simp only: obj truthy.simps isObjectType.simps sw BigInt_hex jsval.case option.case
          if_True if_False simp_thms) (simp add: getProp_def)
  show "decimalValue (toStringRadix 10 n) = n"
    by (rule decimalValue_toStringRadix)
next
  assume "isObjectType response \<and> truthy response \<and> getProp ''result'' response = JStr s
        \<and> startsWith s ''0x'' \<and> BigInt s = None"
  then show "getProp ''result'' (formatRpcResponse response sessionId)
        = JStr ''Error converting result to decimal''"
    by (simp add: formatRpcResponse_def getProp_def)
next
  assume "isObjectType response \<and> truthy response
        \<and> (\<forall>s. getProp ''result'' response \<noteq> JStr s)"
  then show "getProp ''result'' (formatRpcResponse response sessionId)
        = getProp ''result'' response"
    by (cases "getProp ''result'' response") (simp_all add: formatRpcResponse_def getProp_def)
qed

theorem formatRpcResponse_hex_roundtrip_witness:
  "getProp ''result''
      (formatRpcResponse
         (JObj [(''jsonrpc'', JStr ''2.0''), (''id'', JNum 7),
                (''result'', JStr ''0x2540be400'')]) ''s1'')
     = JStr ''10000000000''
   \<and> getProp ''result'' (formatRpcResponse (JObj [(''result'', JStr ''0xzz'')]) ''s1'')
     = JStr ''Error converting result to decimal''
   \<and> getProp ''result'' (formatRpcResponse (JObj [(''result'', JNum 5)]) ''s1'')
     = JNum 5"
proof (intro conjI)
  let ?r = "JObj [(''jsonrpc'', JStr ''2.0''), (''id'', JNum 7),
                  (''result'', JStr ''0x2540be400'')]"
  have hex: "''0x'' @ toStringRadix 16 10000000000 = ''0x2540be400''"
    by (simp add: toStringRadix_eval digitChars_def)
  have dec: "toStringRadix 10 10000000000 = ''10000000000''"
    by (simp add: toStringRadix_eval digitChars_def)
  have "getProp ''result'' ?r = JStr (''0x'' @ toStringRadix 16 10000000000)"
    unfolding hex by (simp add: getProp_def)
  with formatRpcResponse_hex_roundtrip [of ?r 10000000000 "''s1''"]
  show "getProp ''result'' (formatRpcResponse ?r ''s1'') = JStr ''10000000000''"
    unfolding dec by blast
next
  let ?r = "JObj [(''result'', JStr ''0xzz'')]"
  have "isObjectType ?r \<and> truthy ?r \<and> getProp ''result'' ?r = JStr ''0xzz''
        \<and> startsWith ''0xzz'' ''0x'' \<and> BigInt ''0xzz'' = None"
    by (simp add: getProp_def BigInt_eval)
  with formatRpcResponse_hex_roundtrip [of ?r _ "''s1''" "''0xzz''"]
  show "getProp ''result'' (formatRpcResponse ?r ''s1'')
        = JStr ''Error converting result to decimal''"
    by blast
next
  let ?r = "JObj [(''result'', JNum 5)]"
  have "isObjectType ?r \<and> truthy ?r \<and> (\<forall>s. getProp ''result'' ?r \<noteq> JStr s)"
    by (simp add: getProp_def)
  with formatRpcResponse_hex_roundtrip [of ?r _ "''s1''"]
  have "getProp ''result'' (formatRpcResponse ?r ''s1'') = getProp ''result'' ?r"
    by blast
  then show "getProp ''result'' (formatRpcResponse ?r ''s1'') = JNum 5"
    by (simp add: getProp_def)
qed

section \<open>The health hash\<close>

lemma set_update_cases:
  "x \<in> set (AList.update k v al) \<Longrightarrow> x = (k, v) \<or> x \<in> set al"
  by (induction al) (auto split: if_splits)

lemma set_delete_subset:
  "x \<in> set (AList.delete k al) \<Longrightarrow> x \<in> set al"
  by (simp add: AList.delete_eq)

lemma healthInvariant_iff:
  "healthInvariant st \<longleftrightarrow> (\<forall>u h. (u, h) \<in> set (health st) \<longrightarrow> healthy h \<longrightarrow> failCount h = 0)"
  by (auto simp: healthInvariant_def list_all_iff)

lemma checkHealth_record_ok:
  "healthy (fst (checkHealth w u st)) \<Longrightarrow> failCount (fst (checkHealth w u st)) = 0"
  by (auto simp: checkHealth_def Let_def updateHealthStatus_def split: http_outcome.splits if_splits)

lemma checkHealth_health:
  "health (snd (checkHealth w u st)) = AList.update u (fst (checkHealth w u st)) (health st)"
  by (auto simp: checkHealth_def Let_def updateHealthStatus_def incrementFailCount_def split: http_outcome.splits)

lemma checkHealth_invariant:
  "healthInvariant st \<Longrightarrow> healthInvariant (snd (checkHealth w u st))"
proof -
  assume inv: "healthInvariant st"
  show ?thesis
    unfolding healthInvariant_iff checkHealth_health
  proof (intro allI impI)
    fix v h
    assume "(v, h) \<in> set (AList.update u (fst (checkHealth w u st)) (health st))"
      and hh: "healthy h"
    then have "(v, h) = (u, fst (checkHealth w u st)) \<or> (v, h) \<in> set (health st)"
      by (blast dest: set_update_cases)
    then show "failCount h = 0"
      using hh inv checkHealth_record_ok [of w u st]
      by (auto simp: healthInvariant_iff)
  qed
qed

lemma probeAll_invariant:
  "healthInvariant st \<Longrightarrow> healthInvariant (probeAll w us st)"
  unfolding probeAll_def
  by (induction us arbitrary: st) (auto intro: checkHealth_invariant)

lemma apply_cmd_health_subset:
  "x \<in> set (health (apply_cmd cmd st)) \<Longrightarrow> x \<in> set (health st)"
  by (cases cmd) (auto simp: Let_def dest: set_delete_subset split: option.splits)

lemma fold_apply_cmd_health_subset:
  "x \<in> set (health (fold apply_cmd cmds st)) \<Longrightarrow> x \<in> set (health st)"
  by (induction cmds arbitrary: st) (auto dest: apply_cmd_health_subset)

lemma exec_invariant:
  "healthInvariant st \<Longrightarrow> healthInvariant (exec cmds st)"
  unfolding healthInvariant_iff exec_def
  by (auto dest: fold_apply_cmd_health_subset)

lemma loadChain_fold_invariant:
  "healthInvariant (snd ms) \<Longrightarrow> healthInvariant (snd (fold (loadChain env w) xs ms))"
proof (induction xs arbitrary: ms)
  case Nil
  then show ?case by simp
next
  case (Cons x xs)
  have "healthInvariant (snd (loadChain env w x ms))"
    using Cons.prems
    by (cases x; cases ms) (simp add: loadChain_def probeAll_invariant)
  then show ?case
    by (simp add: Cons.IH)
qed

lemma trace_update_invariant [simp]:
  "healthInvariant (st\<lparr>trace := t\<rparr>) = healthInvariant st"
  "healthInvariant (st\<lparr>unhealthyErrors := e\<rparr>) = healthInvariant st"
  "healthInvariant (st\<lparr>sessions := s\<rparr>) = healthInvariant st"
  by (simp_all add: healthInvariant_def)

lemma loadRpcConfig_accepted:
  assumes "w_file w = Parsed (Content (ArrayMember cs))" and "those (map urls cs) = Some uss"
  shows "loadRpcConfig env w st =
     (let st0 = st\<lparr>trace := trace st @ [EvReload]\<rparr>;
          r = fold (loadChain env w) (zip cs uss) (removalQueue st (concat uss), st0)
      in (Inr (), exec (fst r @ [ExpireHealth (healthTtl env)]) (snd r)))"
  using assms by (simp add: loadRpcConfig_def Let_def split_beta removalQueue_def)

lemma isArrayMember_iff: "isArrayMember m \<longleftrightarrow> (\<exists>cs. m = ArrayMember cs)"
  by (cases m) simp_all

lemma loadRpcConfig_failures:
  "w_file w = ReadFailed \<Longrightarrow>
     loadRpcConfig env w st = (Inl FileError, st\<lparr>trace := trace st @ [EvReload]\<rparr>)"
  "w_file w = Parsed NullContent \<Longrightarrow>
     loadRpcConfig env w st = (Inl TypeError, st\<lparr>trace := trace st @ [EvReload]\<rparr>)"
  "w_file w = Parsed (Content m) \<Longrightarrow> \<not> isArrayMember m \<Longrightarrow>
     loadRpcConfig env w st = (Inl InvalidConfig, st\<lparr>trace := trace st @ [EvReload]\<rparr>)"
  "w_file w = Parsed (Content (ArrayMember cs)) \<Longrightarrow> those (map urls cs) = None \<Longrightarrow>
     loadRpcConfig env w st = (Inl TypeError, st\<lparr>trace := trace st @ [EvReload]\<rparr>)"
  by (simp_all add: loadRpcConfig_def Let_def)

lemma loadRpcConfig_file_cases:
  obtains
    (unreadable) "w_file w = ReadFailed"
  | (null) "w_file w = Parsed NullContent"
  | (no_array) m where "w_file w = Parsed (Content m)" "\<not> isArrayMember m"
  | (no_urls) cs where "w_file w = Parsed (Content (ArrayMember cs))" "those (map urls cs) = None"
  | (accepted) cs uss where "w_file w = Parsed (Content (ArrayMember cs))"
      "those (map urls cs) = Some uss"
proof (cases "w_file w")
  case ReadFailed
  then show ?thesis by (rule unreadable)
next
  case (Parsed content)
  show ?thesis
  proof (cases content)
    case NullContent
    with Parsed show ?thesis by (simp add: null)
  next
    case (Content m)
    show ?thesis
    proof (cases "isArrayMember m")
      case False
      with Parsed Content show ?thesis by (simp add: no_array)
    next
      case True
      then obtain cs where "m = ArrayMember cs"
        unfolding isArrayMember_iff by blast
      with Parsed Content have f: "w_file w = Parsed (Content (ArrayMember cs))"
        by simp
      show ?thesis
      proof (cases "those (map urls cs)")
        case None
        with f show ?thesis by (rule no_urls)
      next
        case (Some uss)
        with f show ?thesis by (rule accepted)
      qed
    qed
  qed
qed

lemma loadRpcConfig_invariant:
  "healthInvariant st \<Longrightarrow> healthInvariant (snd (loadRpcConfig env w st))"
proof -
  assume inv: "healthInvariant st"
  have *: "healthInvariant (snd (fold (loadChain env w) xs (m, st\<lparr>trace := t\<rparr>)))" for xs m t
    by (rule loadChain_fold_invariant) (simp add: inv)
  show ?thesis
  proof (cases rule: loadRpcConfig_file_cases [of w])
    case unreadable
    then show ?thesis using inv by (simp add: loadRpcConfig_failures)
  next
    case null
    then show ?thesis using inv by (simp add: loadRpcConfig_failures)
  next
    case (no_array m)
    then show ?thesis using inv by (simp add: loadRpcConfig_failures)
  next
    case (no_urls cs)
    then show ?thesis using inv by (simp add: loadRpcConfig_failures)
  next
    case (accepted cs uss)
    show ?thesis
      unfolding loadRpcConfig_accepted [OF accepted] Let_def snd_conv
      by (rule exec_invariant) (rule *)
  qed
qed

lemma checkForceReload_invariant:
  "healthInvariant st \<Longrightarrow> healthInvariant (snd (checkForceReload env w st))"
  by (auto simp: checkForceReload_def Let_def intro: loadRpcConfig_invariant)

lemma getHealthyRpcUrl_invariant:
  "healthInvariant st \<Longrightarrow> healthInvariant (snd (getHealthyRpcUrl env w c st))"
  using checkForceReload_invariant [of st env w]
  by (auto simp: getHealthyRpcUrl_def Let_def split: option.splits prod.splits sum.splits)

lemma createSession_invariant:
  "healthInvariant st \<Longrightarrow> healthInvariant (snd (createSession env w c st))"
  using getHealthyRpcUrl_invariant [of st env w c]
  by (auto simp: createSession_def Let_def split: option.splits prod.splits sum.splits)

lemma getEndpoint_invariant:
  "healthInvariant st \<Longrightarrow> healthInvariant (snd (getEndpoint env w c st))"
  using createSession_invariant [of st env w c]
  by (auto simp: getEndpoint_def split: prod.splits sum.splits)

lemma resolveSession_invariant:
  "healthInvariant st \<Longrightarrow> healthInvariant (snd (resolveSession env w c sid st))"
  using createSession_invariant [of st env w c] createSession_invariant [of "deleteSession s st" env w c for s]
  by (auto simp: resolveSession_def deleteSession_def split: option.splits)

lemma forwardRequest_invariant:
  "healthInvariant st \<Longrightarrow> healthInvariant (snd (forwardRequest env w r s st))"
  using checkHealth_invariant [of "st\<lparr>trace := trace st @ [EvForward (s_url s)]\<rparr>" w "s_url s"]
  by (auto simp: forwardRequest_def Let_def updateSession_def split: http_outcome.splits)

lemma executeRequest_invariant:
  "healthInvariant st \<Longrightarrow> healthInvariant (snd (executeRequest env w c r sid st))"
  using resolveSession_invariant [of st env w c sid]
  by (auto simp: executeRequest_def split: prod.splits sum.splits intro: forwardRequest_invariant)

section \<open>Stable sorting and filtering\<close>

lemma hd_insort_key:
  "hd (insort_key f x ys) = (if ys = [] \<or> f x \<le> f (hd ys) then x else hd ys)"
  by (cases ys) auto

lemma sort_key_nonempty: "xs \<noteq> [] \<Longrightarrow> sort_key f xs \<noteq> []"
  by (metis length_sort length_greater_0_conv)

lemma hd_sort_key_split:
  fixes f :: "'a \<Rightarrow> int"
  shows "xs \<noteq> [] \<Longrightarrow>
    \<exists>ys zs. xs = ys @ hd (sort_key f xs) # zs
      \<and> (\<forall>y\<in>set ys. f (hd (sort_key f xs)) < f y)
      \<and> (\<forall>z\<in>set zs. f (hd (sort_key f xs)) \<le> f z)"
proof (induction xs)
  case Nil
  then show ?case by simp
next
  case (Cons x xs)
  show ?case
  proof (cases "xs = []")
    case True
    have "[x] = [] @ x # [] \<and> (\<forall>y\<in>set []. f x < f y) \<and> (\<forall>z\<in>set []. f x \<le> f z)"
      by simp
    then show ?thesis
      unfolding True by (simp only: sort_key_simps insort_key.simps list.sel) blast
  next
    case False
    define m where "m = hd (sort_key f xs)"
    from Cons.IH [OF False] obtain ys zs where
      split: "xs = ys @ m # zs" and
      before: "\<forall>y\<in>set ys. f m < f y" and
      after: "\<forall>z\<in>set zs. f m \<le> f z"
      unfolding m_def by blast
    have ne: "sort_key f xs \<noteq> []"
      using False by (rule sort_key_nonempty)
    have hd_eq: "hd (sort_key f (x # xs)) = (if f x \<le> f m then x else m)"
      using ne by (simp add: hd_insort_key m_def)
    show ?thesis
    proof (cases "f x \<le> f m")
      case True
      have "\<forall>z\<in>set xs. f x \<le> f z"
      proof
        fix z assume "z \<in> set xs"
        then have "z \<in> set ys \<or> z = m \<or> z \<in> set zs"
          using split by auto
        then have "f m \<le> f z"
          using before after by auto
        with True show "f x \<le> f z" by simp
      qed
      then have "x # xs = [] @ x # xs \<and> (\<forall>y\<in>set []. f x < f y) \<and> (\<forall>z\<in>set xs. f x \<le> f z)"
        by simp
      then show ?thesis
        unfolding hd_eq using True by (simp only: if_True) blast
    next
      case False
      then have "x # xs = (x # ys) @ m # zs \<and> (\<forall>y\<in>set (x # ys). f m < f y) \<and> (\<forall>z\<in>set zs. f m \<le> f z)"
        using split before after by auto
      then show ?thesis
        unfolding hd_eq using False by (simp only: if_False) blast
    qed
  qed
qed

lemma filter_split_lift:
  "filter P us = ys @ u # zs \<Longrightarrow>
     \<exists>ys' zs'. us = ys' @ u # zs' \<and> filter P ys' = ys \<and> filter P zs' = zs \<and> P u"
proof (induction ys arbitrary: us)
  case Nil
  then have "filter P us = u # zs" by simp
  then obtain cs ds where "us = cs @ u # ds" "\<forall>c\<in>set cs. \<not> P c" "P u" "zs = filter P ds"
    unfolding filter_eq_Cons_iff by blast
  then have "us = cs @ u # ds \<and> filter P cs = [] \<and> filter P ds = zs \<and> P u"
    by simp
  then show ?case by blast
next
  case (Cons y ys)
  then have "filter P us = y # (ys @ u # zs)" by simp
  then obtain cs ds where us: "us = cs @ y # ds" and cs: "\<forall>c\<in>set cs. \<not> P c" and py: "P y"
    and ds: "ys @ u # zs = filter P ds"
    unfolding filter_eq_Cons_iff by blast
  from Cons.IH [OF ds [symmetric]] obtain ys' zs' where
    "ds = ys' @ u # zs'" "filter P ys' = ys" "filter P zs' = zs" "P u"
    by blast
  then have "us = (cs @ y # ys') @ u # zs' \<and> filter P (cs @ y # ys') = y # ys
      \<and> filter P zs' = zs \<and> P u"
    using us cs py by simp
  then show ?case by blast
qed

lemma isEligible_iff:
  "isEligible env hs u \<longleftrightarrow> (\<exists>h. map_of hs u = Some h \<and> healthy h \<and> failCount h < maxFailCount env)"
  by (auto simp: isEligible_def split: option.splits)

section \<open>The record a probe writes\<close>

lemma checkHealth_written:
  "map_of (health (snd (checkHealth w u st))) u = Some (fst (checkHealth w u st))"
  by (simp add: checkHealth_health update_conv')

text \<open>
  What \<open>checkHealth\<close> does when axios rejects the probe (no response, or a status
  outside 200 to 299): the record is unhealthy and counts one failure more than the
  record before, or one when there was none.
\<close>

lemma checkHealth_rejected:
  assumes "fst (w_probe w u) = NoResponse
    \<or> (\<exists>status dat. fst (w_probe w u) = HttpResponse status dat
          \<and> \<not> (200 \<le> status \<and> status < 300))"
  shows "fst (checkHealth w u st) =
    \<lparr>url = u, healthy = False, lastCheck = w_now w, responseTime = snd (w_probe w u),
     failCount = (case map_of (health st) u of Some h \<Rightarrow> failCount h + 1 | None \<Rightarrow> 1)\<rparr>"
  using assms
  by (auto simp: checkHealth_def updateHealthStatus_def Let_def incrementFailCount_def
      split: http_outcome.splits)

text \<open>What it does on a successful probe: healthy, no failure counted.\<close>

lemma checkHealth_successful:
  assumes "fst (w_probe w u) = HttpResponse 200 dat" and "getProp ''result'' dat \<noteq> JUndefined"
  shows "fst (checkHealth w u st) =
    \<lparr>url = u, healthy = True, lastCheck = w_now w, responseTime = snd (w_probe w u),
     failCount = 0\<rparr>"
  using assms by (simp add: checkHealth_def Let_def)

section \<open>Claims about the health checker\<close>

text \<open>
  Claim C1 says that every unsuccessful probe writes an unhealthy record whose
  \<open>failCount\<close> is one more than before, and that only a successful probe resets
  \<open>failCount\<close> to 0. The code does so when axios rejects the probe
  (\<open>checkHealth_rejected\<close>). When the probe is answered with status 200 and a body
  without \<open>result\<close>, the \<open>try\<close> branch runs: for a URL that had failed twice, the
  record written is unhealthy with \<open>failCount\<close> 0, where the claim has 3.
\<close>

theorem checkHealth_unhealthy_reply_resets_failCount:
  "fst (w_probe world1 ''A'') = HttpResponse 200 errorBody
   \<and> getProp ''result'' errorBody = JUndefined
   \<and> map_option failCount (map_of (health state1) ''A'') = Some 2
   \<and> fst (checkHealth world1 ''A'' state1) =
       \<lparr>url = ''A'', healthy = False, lastCheck = 1000, responseTime = 12, failCount = 0\<rparr>
   \<and> map_of (health (snd (checkHealth world1 ''A'' state1))) ''A'' =
       Some \<lparr>url = ''A'', healthy = False, lastCheck = 1000, responseTime = 12,
             failCount = 0\<rparr>"
  by (simp add: checkHealth_def world1_def state1_def emptyState_def errorBody_def getProp_def
        updateHealthStatus_def incrementFailCount_def Let_def)

text \<open>
  Claim C8. A record of the health hash that is marked healthy has \<open>failCount\<close> 0:
  this holds of the empty store, every record \<open>checkHealth\<close> writes satisfies it,
  and it is preserved by \<open>checkHealth\<close> (whatever the outcome of the probe), by a
  reload of the configuration, and by \<open>executeRequest\<close> and \<open>getEndpoint\<close>, which
  cover the demotion after a failed forward and the reload forced by the selector.
\<close>

theorem healthInvariant_preserved:
  "healthInvariant emptyState
   \<and> (healthy (fst (checkHealth w u st)) \<longrightarrow> failCount (fst (checkHealth w u st)) = 0)
   \<and> (healthInvariant st \<longrightarrow>
        healthInvariant (snd (checkHealth w u st))
        \<and> healthInvariant (snd (loadRpcConfig env w st))
        \<and> healthInvariant (snd (executeRequest env w c rpcRequest sessionId st))
        \<and> healthInvariant (snd (getEndpoint env w c st)))"
proof (intro conjI impI)
  show "healthInvariant emptyState"
    by (simp add: healthInvariant_def emptyState_def)
qed (simp_all add: checkHealth_record_ok checkHealth_invariant loadRpcConfig_invariant
      executeRequest_invariant getEndpoint_invariant)

theorem healthInvariant_preserved_witness:
  "healthInvariant state2
   \<and> map_option healthy (map_of (health state2) ''A'') = Some True
   \<and> healthInvariant (snd (checkHealth world2 ''A'' state2))
   \<and> healthInvariant (snd (loadRpcConfig env0 world2 state2))
   \<and> healthInvariant (snd (executeRequest env0 world2 1 request1 None state2))
   \<and> healthInvariant (snd (getEndpoint env0 world2 1 state2))"
proof -
  have inv: "healthInvariant state2"
    by (simp add: healthInvariant_def state2_def emptyState_def)
  have "map_option healthy (map_of (health state2) ''A'') = Some True"
    by (simp add: state2_def emptyState_def)
  then show ?thesis
    using inv healthInvariant_preserved [of world2 "''A''" state2 env0 1 request1 None]
    by blast
qed

section \<open>Claims about the selector\<close>

text \<open>
  Claim C3. When the chain's configuration is present and some URL of it is retained,
  \<open>getHealthyRpcUrl\<close> returns a URL \<open>u\<close> of \<open>config.urls\<close> that has a health record
  \<open>h\<close>, marked healthy, with \<open>failCount\<close> below \<open>maxFailCount\<close> (so a URL without
  a record is never returned), and leaves the state as it was. \<open>u\<close> occurs in
  \<open>config.urls\<close> at a place where every eligible URL before it is strictly slower
  and every eligible URL after it is at least as slow: \<open>u\<close> has the least
  \<open>responseTime\<close>, and among equals the first in input order.
\<close>

theorem getHealthyRpcUrl_fastest_eligible:
  assumes cfg: "getChainConfig c st = Some config"
    and us: "urls config = Some us"
    and ne: "filter (isEligible env (health st)) us \<noteq> []"
  shows "\<exists>u h ys zs.
      getHealthyRpcUrl env w c st = (Inr u, st)
      \<and> u \<in> set us
      \<and> map_of (health st) u = Some h \<and> healthy h \<and> failCount h < maxFailCount env
      \<and> us = ys @ u # zs
      \<and> (\<forall>y\<in>set ys. \<forall>hy. map_of (health st) y = Some hy \<and> healthy hy
             \<and> failCount hy < maxFailCount env \<longrightarrow> responseTime h < responseTime hy)
      \<and> (\<forall>z\<in>set zs. \<forall>hz. map_of (health st) z = Some hz \<and> healthy hz
             \<and> failCount hz < maxFailCount env \<longrightarrow> responseTime h \<le> responseTime hz)"
proof -
  let ?P = "isEligible env (health st)"
  let ?f = "responseTimeOf (health st)"
  let ?u = "hd (sort_key ?f (filter ?P us))"
  have res: "getHealthyRpcUrl env w c st = (Inr ?u, st)"
    using cfg us ne by (simp add: getHealthyRpcUrl_def Let_def)
  from hd_sort_key_split [OF ne, of ?f] obtain ys zs where
    split: "filter ?P us = ys @ ?u # zs" and
    before: "\<forall>y\<in>set ys. ?f ?u < ?f y" and
    after: "\<forall>z\<in>set zs. ?f ?u \<le> ?f z"
    by blast
  from filter_split_lift [OF split] obtain ys' zs' where
    us_split: "us = ys' @ ?u # zs'" and fy: "filter ?P ys' = ys" and fz: "filter ?P zs' = zs"
    and pu: "?P ?u"
    by blast
  from pu obtain h where h: "map_of (health st) ?u = Some h" "healthy h"
    "failCount h < maxFailCount env"
    unfolding isEligible_iff by blast
  have fu: "?f ?u = responseTime h"
    using h(1) by (simp add: responseTimeOf_def)
  have b: "responseTime h < responseTime hy"
    if "y \<in> set ys'" "map_of (health st) y = Some hy" "healthy hy" "failCount hy < maxFailCount env"
    for y hy
  proof -
    have "?P y" using that by (auto simp: isEligible_iff)
    then have "y \<in> set ys" using that(1) fy by auto
    then have "?f ?u < ?f y" using before by blast
    then show ?thesis using that(2) fu by (simp add: responseTimeOf_def)
  qed
  have a: "responseTime h \<le> responseTime hz"
    if "z \<in> set zs'" "map_of (health st) z = Some hz" "healthy hz" "failCount hz < maxFailCount env"
    for z hz
  proof -
    have "?P z" using that by (auto simp: isEligible_iff)
    then have "z \<in> set zs" using that(1) fz by auto
    then have "?f ?u \<le> ?f z" using after by blast
    then show ?thesis using that(2) fu by (simp add: responseTimeOf_def)
  qed
  have mem: "?u \<in> set us"
    by (subst us_split) simp
  show ?thesis
    using res mem h us_split a b by blast
qed


theorem getHealthyRpcUrl_fastest_eligible_witness:
  "getChainConfig 1 state2 = Some cfg1 \<and> urls cfg1 = Some [''E'', ''C'', ''A'', ''B'']
   \<and> filter (isEligible env0 (health state2)) [''E'', ''C'', ''A'', ''B''] = [''A'', ''B'']
   \<and> getHealthyRpcUrl env0 world1 1 state2 = (Inr ''A'', state2)
   \<and> (\<exists>u h ys zs.
      getHealthyRpcUrl env0 world1 1 state2 = (Inr u, state2)
      \<and> u \<in> set [''E'', ''C'', ''A'', ''B'']
      \<and> map_of (health state2) u = Some h \<and> healthy h \<and> failCount h < maxFailCount env0
      \<and> [''E'', ''C'', ''A'', ''B''] = ys @ u # zs
      \<and> (\<forall>y\<in>set ys. \<forall>hy. map_of (health state2) y = Some hy \<and> healthy hy
             \<and> failCount hy < maxFailCount env0 \<longrightarrow> responseTime h < responseTime hy)
      \<and> (\<forall>z\<in>set zs. \<forall>hz. map_of (health state2) z = Some hz \<and> healthy hz
             \<and> failCount hz < maxFailCount env0 \<longrightarrow> responseTime h \<le> responseTime hz))"
proof -
  have 1: "getChainConfig 1 state2 = Some cfg1"
    by (simp add: getChainConfig_def state2_def emptyState_def)
  have 2: "urls cfg1 = Some [''E'', ''C'', ''A'', ''B'']"
    by (simp add: cfg1_def)
  have 3: "filter (isEligible env0 (health state2)) [''E'', ''C'', ''A'', ''B''] = [''A'', ''B'']"
    by (simp add: isEligible_def state2_def emptyState_def env0_def)
  then have 4: "filter (isEligible env0 (health state2)) [''E'', ''C'', ''A'', ''B''] \<noteq> []"
    by simp
  have 5: "getHealthyRpcUrl env0 world1 1 state2 = (Inr ''A'', state2)"
    by (simp add: getHealthyRpcUrl_def getChainConfig_def state2_def emptyState_def cfg1_def
          isEligible_def env0_def responseTimeOf_def)
  show ?thesis
    using 1 2 3 5 getHealthyRpcUrl_fastest_eligible [OF 1 2 4, of world1] by blast
qed

section \<open>What a reload leaves alone, and the order of its actions\<close>

lemma checkHealth_frame:
  "sessions (snd (checkHealth w u st)) = sessions st"
  "chains (snd (checkHealth w u st)) = chains st"
  "unhealthyErrors (snd (checkHealth w u st)) = unhealthyErrors st"
  "health_ttl (snd (checkHealth w u st)) = health_ttl st"
  "trace (snd (checkHealth w u st)) = trace st @ [EvProbe u]"
  by (auto simp: checkHealth_def Let_def updateHealthStatus_def split: http_outcome.splits)

lemma probeAll_frame:
  "sessions (probeAll w us st) = sessions st"
  "chains (probeAll w us st) = chains st"
  "unhealthyErrors (probeAll w us st) = unhealthyErrors st"
  "trace (probeAll w us st) = trace st @ map EvProbe us"
  unfolding probeAll_def
  by (induction us arbitrary: st) (simp_all add: checkHealth_frame)

lemma apply_cmd_frame:
  "sessions (apply_cmd cmd st) = sessions st"
  "unhealthyErrors (apply_cmd cmd st) = unhealthyErrors st"
  by (cases cmd; simp add: Let_def split: option.splits)+

lemma fold_apply_cmd_frame:
  "sessions (fold apply_cmd cmds st) = sessions st"
  "unhealthyErrors (fold apply_cmd cmds st) = unhealthyErrors st"
  by (induction cmds arbitrary: st) (simp_all add: apply_cmd_frame)

lemma exec_frame:
  "sessions (exec cmds st) = sessions st"
  "unhealthyErrors (exec cmds st) = unhealthyErrors st"
  "trace (exec cmds st) = trace st @ [EvExec cmds]"
  by (simp_all add: exec_def fold_apply_cmd_frame)

lemma loadChain_fold:
  "fst (fold (loadChain env w) xs (m, st)) = m @ chainQueue env (map fst xs)"
  "sessions (snd (fold (loadChain env w) xs (m, st))) = sessions st"
  "unhealthyErrors (snd (fold (loadChain env w) xs (m, st))) = unhealthyErrors st"
  "chains (snd (fold (loadChain env w) xs (m, st))) = chains st"
  "trace (snd (fold (loadChain env w) xs (m, st))) = trace st @ map EvProbe (concat (map snd xs))"
  by (induction xs arbitrary: m st; simp add: loadChain_def chainQueue_def probeAll_frame split_beta)+

lemma those_map_Some:
  "those (map f xs) = Some ys \<Longrightarrow> length ys = length xs \<and> map Some ys = map f xs"
  by (induction xs arbitrary: ys) (auto split: option.splits)


lemma loadRpcConfig_accepted_iff:
  "fst (loadRpcConfig env w st) = Inr () \<longleftrightarrow>
     (\<exists>cs uss. w_file w = Parsed (Content (ArrayMember cs)) \<and> those (map urls cs) = Some uss)"
  by (cases rule: loadRpcConfig_file_cases [of w])
    (auto simp: loadRpcConfig_failures loadRpcConfig_accepted Let_def)


lemma loadRpcConfig_rejected_state:
  "fst (loadRpcConfig env w st) = Inl e \<Longrightarrow>
     snd (loadRpcConfig env w st) = st\<lparr>trace := trace st @ [EvReload]\<rparr>"
  by (cases rule: loadRpcConfig_file_cases [of w])
    (auto simp: loadRpcConfig_failures loadRpcConfig_accepted Let_def)


lemma loadRpcConfig_frame:
  "sessions (snd (loadRpcConfig env w st)) = sessions st"
  "unhealthyErrors (snd (loadRpcConfig env w st)) = unhealthyErrors st"
  by (cases rule: loadRpcConfig_file_cases [of w];
      simp add: loadRpcConfig_failures loadRpcConfig_accepted Let_def exec_frame
        loadChain_fold)+

lemma loadRpcConfig_trace:
  assumes "w_file w = Parsed (Content (ArrayMember cs))" and "those (map urls cs) = Some uss"
  shows "trace (snd (loadRpcConfig env w st)) =
     trace st @ [EvReload] @ map EvProbe (concat uss)
       @ [EvExec (removalQueue st (concat uss) @ chainQueue env cs
                   @ [ExpireHealth (healthTtl env)])]"
proof -
  have len: "length uss = length cs"
    using those_map_Some [OF assms(2)] by simp
  have "removalQueue (st\<lparr>trace := t\<rparr>) us = removalQueue st us" for t us
    by (simp add: removalQueue_def)
  then show ?thesis
    unfolding loadRpcConfig_accepted [OF assms] Let_def
    using len by (simp add: exec_frame loadChain_fold)
qed

lemma probeAll_append:
  "probeAll w (us @ vs) st = probeAll w vs (probeAll w us st)"
  by (simp add: probeAll_def)

lemma loadChain_fold_state:
  "snd (fold (loadChain env w) xs (m, st)) = probeAll w (concat (map snd xs)) st"
proof (induction xs arbitrary: m st)
  case Nil
  then show ?case by (simp add: probeAll_def)
next
  case (Cons x xs)
  then show ?case
    by (cases x) (simp add: loadChain_def probeAll_append)
qed

lemma loadRpcConfig_accepted_state:
  assumes "w_file w = Parsed (Content (ArrayMember cs))" and "those (map urls cs) = Some uss"
  shows "snd (loadRpcConfig env w st) =
     exec (removalQueue st (concat uss) @ chainQueue env cs @ [ExpireHealth (healthTtl env)])
       (probeAll w (concat uss) (st\<lparr>trace := trace st @ [EvReload]\<rparr>))"
proof -
  have len: "length uss = length cs"
    using those_map_Some [OF assms(2)] by simp
  show ?thesis
    unfolding loadRpcConfig_accepted [OF assms] Let_def
    using len by (simp add: loadChain_fold loadChain_fold_state)
qed

section \<open>Claims about the configuration loader\<close>

text \<open>
  Claim C4, as the code has it. In every successful run of \<open>loadRpcConfig\<close> the
  file's \<open>chains\<close> is an array whose elements all have \<open>urls\<close>; \<open>checkHealth\<close> is
  called for every URL occurrence of the file, in file order, before the transaction
  is executed: the resulting state is the transaction applied to the state the probes
  left, and the history is the reload, the probes, then the commit. The probes are not
  among the queued commands (the queue holds the deletion of the chain keys and of the
  removed URLs' health fields, the chain configurations with their time to live, and
  the time to live of the health hash).
\<close>

theorem loadRpcConfig_probes_before_commit:
  assumes "fst (loadRpcConfig env w st) = Inr ()"
  shows "\<exists>cs uss queue.
      w_file w = Parsed (Content (ArrayMember cs)) \<and> map Some uss = map urls cs
      \<and> queue = removalQueue st (concat uss) @ chainQueue env cs
                  @ [ExpireHealth (healthTtl env)]
      \<and> snd (loadRpcConfig env w st) =
          exec queue (probeAll w (concat uss) (st\<lparr>trace := trace st @ [EvReload]\<rparr>))
      \<and> trace (snd (loadRpcConfig env w st)) =
          trace st @ [EvReload] @ map EvProbe (concat uss) @ [EvExec queue]"
proof -
  from assms obtain cs uss where
    f: "w_file w = Parsed (Content (ArrayMember cs))" and t: "those (map urls cs) = Some uss"
    unfolding loadRpcConfig_accepted_iff by blast
  have "map Some uss = map urls cs"
    using those_map_Some [OF t] by simp
  then show ?thesis
    using f loadRpcConfig_accepted_state [OF f t, of env st] loadRpcConfig_trace [OF f t, of env st]
    by blast
qed

theorem loadRpcConfig_probes_before_commit_witness:
  "fst (loadRpcConfig env0 world2 emptyState) = Inr ()
   \<and> (\<exists>cs uss queue.
      w_file world2 = Parsed (Content (ArrayMember cs)) \<and> map Some uss = map urls cs
      \<and> queue = removalQueue emptyState (concat uss) @ chainQueue env0 cs
                  @ [ExpireHealth (healthTtl env0)]
      \<and> snd (loadRpcConfig env0 world2 emptyState) =
          exec queue (probeAll world2 (concat uss)
                        (emptyState\<lparr>trace := trace emptyState @ [EvReload]\<rparr>))
      \<and> trace (snd (loadRpcConfig env0 world2 emptyState)) =
          trace emptyState @ [EvReload] @ map EvProbe (concat uss) @ [EvExec queue])"
proof -
  have "fst (loadRpcConfig env0 world2 emptyState) = Inr ()"
    unfolding loadRpcConfig_accepted_iff by (simp add: world2_def cfg1_def)
  then show ?thesis
    using loadRpcConfig_probes_before_commit [of env0 world2 emptyState] by blast
qed

text \<open>
  Claim C4 as stated has the probes triggered after the commit. For a file holding
  chain 1 with the URLs \<open>E\<close>, \<open>C\<close>, \<open>A\<close>, \<open>B\<close> and an empty store, the four
  probes come before the commit.
\<close>

theorem loadRpcConfig_probe_precedes_commit_example:
  "fst (loadRpcConfig env0 world2 emptyState) = Inr ()
   \<and> trace (snd (loadRpcConfig env0 world2 emptyState)) =
       [EvReload, EvProbe ''E'', EvProbe ''C'', EvProbe ''A'', EvProbe ''B'',
        EvExec [HSet (Some 1) cfg1, Expire (Some 1) 86400, ExpireHealth 3600]]"
proof -
  have f: "w_file world2 = Parsed (Content (ArrayMember [cfg1]))"
    by (simp add: world2_def)
  have t: "those (map urls [cfg1]) = Some [[''E'', ''C'', ''A'', ''B'']]"
    by (simp add: cfg1_def)
  have "fst (loadRpcConfig env0 world2 emptyState) = Inr ()"
    unfolding loadRpcConfig_accepted_iff using f t by blast
  moreover have "trace (snd (loadRpcConfig env0 world2 emptyState)) =
       [EvReload, EvProbe ''E'', EvProbe ''C'', EvProbe ''A'', EvProbe ''B'',
        EvExec [HSet (Some 1) cfg1, Expire (Some 1) 86400, ExpireHealth 3600]]"
    unfolding loadRpcConfig_trace [OF f t]
    by (simp add: emptyState_def removalQueue_def chainQueue_def env0_def cfg1_def)
  ultimately show ?thesis by blast
qed




lemma loadRpcConfig_trace_prefix:
  "\<exists>rest. trace (snd (loadRpcConfig env w st)) = trace st @ EvReload # rest"
proof (cases "fst (loadRpcConfig env w st)")
  case (Inl e)
  then show ?thesis
    by (simp add: loadRpcConfig_rejected_state)
next
  case (Inr x)
  then have "fst (loadRpcConfig env w st) = Inr ()" by simp
  then obtain cs uss where "w_file w = Parsed (Content (ArrayMember cs))" "those (map urls cs) = Some uss"
    unfolding loadRpcConfig_accepted_iff by blast
  then show ?thesis
    by (simp add: loadRpcConfig_trace)
qed

section \<open>Claims about the collapse of a chain's pool\<close>

text \<open>
  What \<open>getHealthyRpcUrl\<close> does when the configuration of the chain is present and
  no URL of it is retained: it drops the window entries older than 10 seconds and
  records one entry. If the window then holds fewer than 3 entries, the call fails
  with \<open>NoHealthyRpc\<close> and nothing else changes. If it holds at least 3, the window
  is cleared and the reload is invoked; the call then fails with \<open>NoHealthyRpc\<close>
  when the reload succeeds, and with the reload's own error when the reload fails.
\<close>

lemma getHealthyRpcUrl_collapse:
  assumes cfg: "getChainConfig c st = Some config"
    and us: "urls config = Some us"
    and empty: "filter (isEligible env (health st)) us = []"
    and win: "win = filter (\<lambda>t. w_now w - t \<le> ERROR_TIME_WINDOW) (unhealthyErrors st) @ [w_now w]"
  shows "(length win < ERROR_THRESHOLD \<longrightarrow>
            getHealthyRpcUrl env w c st = (Inl NoHealthyRpc, st\<lparr>unhealthyErrors := win\<rparr>))
     \<and> (length win \<ge> ERROR_THRESHOLD \<longrightarrow>
            snd (getHealthyRpcUrl env w c st)
              = snd (loadRpcConfig env w (st\<lparr>unhealthyErrors := []\<rparr>))
            \<and> unhealthyErrors (snd (getHealthyRpcUrl env w c st)) = []
            \<and> (\<exists>rest. trace (snd (getHealthyRpcUrl env w c st)) = trace st @ EvReload # rest)
            \<and> fst (getHealthyRpcUrl env w c st)
              = (case fst (loadRpcConfig env w (st\<lparr>unhealthyErrors := []\<rparr>)) of
                   Inl e \<Rightarrow> Inl e
                 | Inr x \<Rightarrow> Inl NoHealthyRpc))
     \<and> (\<exists>e. fst (getHealthyRpcUrl env w c st) = Inl e)"
proof -
  let ?st = "st\<lparr>unhealthyErrors := []\<rparr>"
  have eq: "getHealthyRpcUrl env w c st =
      (case checkForceReload env w st of
         (Inl e, st') \<Rightarrow> (Inl e, st')
       | (Inr x, st') \<Rightarrow> (Inl NoHealthyRpc, st'))"
    using cfg us empty by (simp add: getHealthyRpcUrl_def)
  have small: "getHealthyRpcUrl env w c st = (Inl NoHealthyRpc, st\<lparr>unhealthyErrors := win\<rparr>)"
    if "length win < ERROR_THRESHOLD"
    using that unfolding eq win by (simp add: checkForceReload_def Let_def)
  have big: "checkForceReload env w st = loadRpcConfig env w ?st"
    if "length win \<ge> ERROR_THRESHOLD"
    using that unfolding win by (simp add: checkForceReload_def Let_def)
  have big_snd: "snd (getHealthyRpcUrl env w c st) = snd (loadRpcConfig env w ?st)"
    and big_fst: "fst (getHealthyRpcUrl env w c st)
              = (case fst (loadRpcConfig env w ?st) of
                   Inl e \<Rightarrow> Inl e
                 | Inr x \<Rightarrow> Inl NoHealthyRpc)"
    if "length win \<ge> ERROR_THRESHOLD"
    unfolding eq big [OF that]
    by (cases "loadRpcConfig env w ?st"; cases "fst (loadRpcConfig env w ?st)"; simp)+
  have tr: "\<exists>rest. trace (snd (loadRpcConfig env w ?st)) = trace st @ EvReload # rest"
    using loadRpcConfig_trace_prefix [of env w ?st] by simp
  have fails: "\<exists>e. fst (getHealthyRpcUrl env w c st) = Inl e"
    unfolding eq by (cases "checkForceReload env w st"; cases "fst (checkForceReload env w st)"; simp)
  show ?thesis
    using small big_snd big_fst tr fails
    by (auto simp: loadRpcConfig_frame)
qed

lemma getHealthyRpcUrl_collapse_example:
  "getChainConfig 1 state3 = Some cfg2 \<and> urls cfg2 = Some [''C'', ''E'']
   \<and> filter (isEligible env0 (health state3)) [''C'', ''E''] = []
   \<and> filter (\<lambda>t. w_now world2 - t \<le> ERROR_TIME_WINDOW) (unhealthyErrors state3) @ [w_now world2]
       = [16000, 20000]
   \<and> getHealthyRpcUrl env0 world2 1 state3
       = (Inl NoHealthyRpc, state3\<lparr>unhealthyErrors := [16000, 20000]\<rparr>)
   \<and> filter (\<lambda>t. w_now world2 - t \<le> ERROR_TIME_WINDOW) (unhealthyErrors state4) @ [w_now world2]
       = [15000, 16000, 20000]
   \<and> fst (loadRpcConfig env0 world2 (state4\<lparr>unhealthyErrors := []\<rparr>)) = Inr ()
   \<and> fst (getHealthyRpcUrl env0 world2 1 state4) = Inl NoHealthyRpc
   \<and> unhealthyErrors (snd (getHealthyRpcUrl env0 world2 1 state4)) = []
   \<and> (\<exists>rest. trace (snd (getHealthyRpcUrl env0 world2 1 state4)) = trace state4 @ EvReload # rest)"
proof -
  have c3: "getChainConfig 1 state3 = Some cfg2" and c4: "getChainConfig 1 state4 = Some cfg2"
    by (simp_all add: getChainConfig_def state3_def state4_def)
  have u: "urls cfg2 = Some [''C'', ''E'']"
    by (simp add: cfg2_def)
  have e3: "filter (isEligible env0 (health state3)) [''C'', ''E''] = []"
    and e4: "filter (isEligible env0 (health state4)) [''C'', ''E''] = []"
    by (simp_all add: isEligible_def state3_def state4_def state2_def emptyState_def)
  have w3: "[16000, 20000] = filter (\<lambda>t. w_now world2 - t \<le> ERROR_TIME_WINDOW) (unhealthyErrors state3) @ [w_now world2]"
    and w4: "[15000, 16000, 20000] = filter (\<lambda>t. w_now world2 - t \<le> ERROR_TIME_WINDOW) (unhealthyErrors state4) @ [w_now world2]"
    by (simp_all add: state3_def state4_def world2_def ERROR_TIME_WINDOW_def)
  have l3: "length [16000, 20000 :: int] < ERROR_THRESHOLD"
    and l4: "length [15000, 16000, 20000 :: int] \<ge> ERROR_THRESHOLD"
    by (simp_all add: ERROR_THRESHOLD_def)
  have ok: "fst (loadRpcConfig env0 world2 (state4\<lparr>unhealthyErrors := []\<rparr>)) = Inr ()"
    unfolding loadRpcConfig_accepted_iff by (simp add: world2_def cfg1_def)
  have r3: "getHealthyRpcUrl env0 world2 1 state3
       = (Inl NoHealthyRpc, state3\<lparr>unhealthyErrors := [16000, 20000]\<rparr>)"
    using getHealthyRpcUrl_collapse [OF c3 u e3 w3] l3 by blast
  have r4: "fst (getHealthyRpcUrl env0 world2 1 state4) = Inl NoHealthyRpc
     \<and> unhealthyErrors (snd (getHealthyRpcUrl env0 world2 1 state4)) = []
     \<and> (\<exists>rest. trace (snd (getHealthyRpcUrl env0 world2 1 state4)) = trace state4 @ EvReload # rest)"
  proof -
    from getHealthyRpcUrl_collapse [OF c4 u e4 w4] l4
    have a: "unhealthyErrors (snd (getHealthyRpcUrl env0 world2 1 state4)) = []"
      and b: "\<exists>rest. trace (snd (getHealthyRpcUrl env0 world2 1 state4))
                = trace state4 @ EvReload # rest"
      and c: "fst (getHealthyRpcUrl env0 world2 1 state4)
              = (case fst (loadRpcConfig env0 world2 (state4\<lparr>unhealthyErrors := []\<rparr>)) of
                   Inl e \<Rightarrow> Inl e
                 | Inr x \<Rightarrow> Inl NoHealthyRpc)"
      by blast+
    from c have "fst (getHealthyRpcUrl env0 world2 1 state4) = Inl NoHealthyRpc"
      unfolding ok by simp
    with a b show ?thesis by blast
  qed
  show ?thesis
    using c3 u e3 w3 [symmetric] w4 [symmetric] r3 r4 ok by blast
qed

text \<open>
  Claim C9. When \<open>getHealthyRpcUrl\<close> finds no URL retained for a configured chain,
  it records one entry in the window, reloads the configuration when the window then
  holds 3 entries of the last 10 seconds, and in either case fails with
  \<open>NoHealthyRpc\<close>. The code does not end so when the forced reload fails: with two
  recent entries in the window and a configuration file without \<open>chains\<close>, the
  third collapse clears the window and invokes the reload, the reload throws
  \<open>InvalidConfig\<close>, and that error, not \<open>NoHealthyRpc\<close>, is what the call fails
  with.
\<close>

theorem getHealthyRpcUrl_reload_error_example:
  "getChainConfig 1 state4 = Some cfg2
   \<and> unhealthyErrors state4 = [15000, 16000] \<and> w_now world5 = 20000
   \<and> filter (isEligible env0 (health state4)) [''C'', ''E''] = []
   \<and> w_file world5 = Parsed (Content NoMember)
   \<and> getHealthyRpcUrl env0 world5 1 state4
       = (Inl InvalidConfig, state4\<lparr>unhealthyErrors := [], trace := [EvReload]\<rparr>)"
  by (simp add: getHealthyRpcUrl_def getChainConfig_def state4_def state2_def emptyState_def
        cfg2_def isEligible_def env0_def checkForceReload_def Let_def world5_def world3_def
        ERROR_TIME_WINDOW_def ERROR_THRESHOLD_def loadRpcConfig_def)

section \<open>Sessions and the forwarded request\<close>

lemma update_fresh:
  "k \<notin> fst ` set al \<Longrightarrow> AList.update k v al = al @ [(k, v)]"
  by (induction al) auto

lemma checkForceReload_frame:
  "sessions (snd (checkForceReload env w st)) = sessions st"
  by (simp add: checkForceReload_def Let_def loadRpcConfig_frame)

lemma getHealthyRpcUrl_frame:
  "sessions (snd (getHealthyRpcUrl env w c st)) = sessions st"
  using checkForceReload_frame [of env w st]
  by (auto simp: getHealthyRpcUrl_def Let_def split: option.splits prod.splits sum.splits)

lemma getHealthyRpcUrl_Inr:
  assumes "getHealthyRpcUrl env w c st = (Inr u, st')"
  shows "st' = st \<and> (\<exists>config us. getChainConfig c st = Some config \<and> urls config = Some us)"
  using assms
  by (auto simp: getHealthyRpcUrl_def Let_def split: option.splits prod.splits sum.splits if_splits)

lemma createSession_Inr:
  assumes "createSession env w c st = (Inr session, st')"
  shows "session = \<lparr>s_id = w_uuid w, s_url = s_url session, s_chainId = c, createdAt = w_now w,
                    lastUsed = w_now w, requestCount = 0\<rparr>
     \<and> getHealthyRpcUrl env w c st = (Inr (s_url session), st)
     \<and> st' = st\<lparr>sessions := AList.update (w_uuid w) (session, sessionTtl env) (sessions st)\<rparr>"
proof (cases "getHealthyRpcUrl env w c st")
  case (Pair r st1)
  show ?thesis
  proof (cases r)
    case (Inl e)
    with Pair assms show ?thesis by (simp add: createSession_def)
  next
    case (Inr u)
    with Pair have "st1 = st" using getHealthyRpcUrl_Inr by blast
    with Pair Inr assms show ?thesis
      by (auto simp: createSession_def Let_def)
  qed
qed

lemma createSession_Inl:
  assumes "fst (createSession env w c st) = Inl e"
  shows "sessions (snd (createSession env w c st)) = sessions st
     \<and> fst (getHealthyRpcUrl env w c st) = Inl e"
  using assms getHealthyRpcUrl_frame [of env w c st]
  by (auto simp: createSession_def Let_def split: prod.splits sum.splits)

lemma createSession_other:
  "k \<noteq> w_uuid w \<Longrightarrow>
     map_of (sessions (snd (createSession env w c st))) k = map_of (sessions st) k"
  using getHealthyRpcUrl_frame [of env w c st]
  by (auto simp: createSession_def Let_def update_conv' split: prod.splits sum.splits)

lemma forwardRequest_other:
  "k \<noteq> s_id session \<Longrightarrow>
     map_of (sessions (snd (forwardRequest env w req session st))) k = map_of (sessions st) k"
  by (auto simp: forwardRequest_def Let_def updateSession_def update_conv' checkHealth_frame
      split: http_outcome.splits)

lemma forwardRequest_session:
  assumes "map_of (sessions st) (s_id session) = Some (session, ttl)"
  shows "\<exists>cur ttl'. map_of (sessions (snd (forwardRequest env w req session st))) (s_id session)
            = Some (cur, ttl')
          \<and> s_id cur = s_id session \<and> s_url cur = s_url session
          \<and> s_chainId cur = s_chainId session"
  using assms
  by (auto simp: forwardRequest_def Let_def updateSession_def update_conv' checkHealth_frame
      split: http_outcome.splits)

lemma deleteSession_gone: "getSession s (deleteSession s st) = None"
  by (simp add: getSession_def deleteSession_def delete_conv')

lemma executeRequest_rejected:
  assumes res: "resolveSession env w c sessionId st = (Inr session, st1)"
    and rej: "rejected (w_post w (s_url session) rpcRequest)"
  shows "executeRequest env w c rpcRequest sessionId st =
      (if truthy (errorResponseData (w_post w (s_url session) rpcRequest))
       then Inr (formatRpcResponse (errorResponseData (w_post w (s_url session) rpcRequest))
                   (s_id session))
       else Inl NoHealthyRpc,
       snd (checkHealth w (s_url session)
              (st1\<lparr>trace := trace st1 @ [EvForward (s_url session)]\<rparr>)))"
proof -
  have ex: "executeRequest env w c rpcRequest sessionId st
      = forwardRequest env w rpcRequest session st1"
    by (simp add: executeRequest_def res)
  show ?thesis
    unfolding ex using rej
    by (cases "w_post w (s_url session) rpcRequest")
      (auto simp: forwardRequest_def Let_def rejected_def errorResponseData_def)
qed

lemma resolve_state2:
  "resolveSession env0 w 1 None state2 =
     (Inr (newSession w 1 ''A''),
      state2\<lparr>sessions := [(w_uuid w, newSession w 1 ''A'', 3600)]\<rparr>)"
  by (simp add: resolveSession_def createSession_def getHealthyRpcUrl_def getChainConfig_def
        state2_def emptyState_def cfg1_def isEligible_def env0_def responseTimeOf_def
        newSession_def Let_def)

lemmas fixture_defs =
  state2_def state5_def state6_def emptyState_def cfg1_def cfg137_def session1_def env0_def
  world1_def world6_def

lemma createSession_state6:
  "createSession env0 world6 137 (deleteSession ''s1'' state6) =
     (Inr (newSession world6 137 ''D''),
      state6\<lparr>sessions := [(''id1'', newSession world6 137 ''D'', 3600)]\<rparr>)"
  by (simp add: createSession_def getHealthyRpcUrl_def getChainConfig_def deleteSession_def
        isEligible_def responseTimeOf_def newSession_def Let_def fixture_defs)

section \<open>Claims about the session store and the executor\<close>

text \<open>
  Claim C10, as the code has it. A call of \<open>getEndpoint\<close> that returns a URL has
  stored, under the identifier \<open>uuidv4()\<close> gave, the session record of the chain and
  that URL with time to live \<open>sessionTtl\<close>, although only the URL is returned; the
  health hash and the chain keys are as before. When the identifier is new to the
  store, the other sessions are as before and the \<open>totalSessions\<close> that
  \<open>getChainStats\<close> reports for the chain has grown by one. A call that fails stores
  no session.
\<close>

theorem getEndpoint_creates_session:
  "(getEndpoint env w c st = (Inr u, st') \<longrightarrow>
      map_of (sessions st') (w_uuid w) = Some (newSession w c u, sessionTtl env)
      \<and> health st' = health st \<and> chains st' = chains st
      \<and> (w_uuid w \<notin> fst ` set (sessions st) \<longrightarrow>
           sessions st' = sessions st @ [(w_uuid w, newSession w c u, sessionTtl env)]
           \<and> (\<exists>stats stats'. getChainStats env c st = Inr stats
                 \<and> getChainStats env c st' = Inr stats'
                 \<and> totalSessions stats' = totalSessions stats + 1)))
   \<and> ((\<exists>e. fst (getEndpoint env w c st) = Inl e) \<longrightarrow>
        sessions (snd (getEndpoint env w c st)) = sessions st)"
proof (intro conjI impI)
  assume a: "getEndpoint env w c st = (Inr u, st')"
  then obtain session where cs: "createSession env w c st = (Inr session, st')" and u: "u = s_url session"
    by (auto simp: getEndpoint_def split: prod.splits sum.splits)
  from createSession_Inr [OF cs] have
    sess: "session = newSession w c u"
    and gh: "getHealthyRpcUrl env w c st = (Inr u, st)"
    and st': "st' = st\<lparr>sessions := AList.update (w_uuid w) (session, sessionTtl env) (sessions st)\<rparr>"
    unfolding newSession_def u by blast+
  show "map_of (sessions st') (w_uuid w) = Some (newSession w c u, sessionTtl env)"
    unfolding st' sess by (simp add: update_conv')
  show "health st' = health st" "chains st' = chains st"
    unfolding st' by simp_all
  assume fresh: "w_uuid w \<notin> fst ` set (sessions st)"
  show app: "sessions st' = sessions st @ [(w_uuid w, newSession w c u, sessionTtl env)]"
    unfolding st' sess using fresh by (simp add: update_fresh)
  from getHealthyRpcUrl_Inr [OF gh] obtain config us where
    cfg: "getChainConfig c st = Some config" "urls config = Some us"
    by blast
  have cfg': "getChainConfig c st' = Some config"
    using cfg(1) unfolding st' by (simp add: getChainConfig_def)
  have h': "health st' = health st"
    unfolding st' by simp
  obtain stats where s: "getChainStats env c st = Inr stats"
    using cfg by (simp add: getChainStats_def Let_def)
  obtain stats' where s': "getChainStats env c st' = Inr stats'"
    using cfg' cfg(2) by (simp add: getChainStats_def Let_def)
  have "totalSessions stats' = totalSessions stats + 1"
    using s s' cfg cfg' unfolding getChainStats_def Let_def h' app
    by (auto simp: newSession_def)
  with s s' show "\<exists>stats stats'. getChainStats env c st = Inr stats
                 \<and> getChainStats env c st' = Inr stats'
                 \<and> totalSessions stats' = totalSessions stats + 1"
    by blast
next
  assume "\<exists>e. fst (getEndpoint env w c st) = Inl e"
  then obtain e where "fst (createSession env w c st) = Inl e"
    by (auto simp: getEndpoint_def split: prod.splits sum.splits)
  from createSession_Inl [OF this]
  show "sessions (snd (getEndpoint env w c st)) = sessions st"
    by (auto simp: getEndpoint_def split: prod.splits sum.splits)
qed

theorem getEndpoint_creates_session_witness:
  "getEndpoint env0 world1 1 state2
     = (Inr ''A'', state2\<lparr>sessions := [(''id1'', newSession world1 1 ''A'', 3600)]\<rparr>)
   \<and> w_uuid world1 \<notin> fst ` set (sessions state2)
   \<and> map_of (sessions (state2\<lparr>sessions := [(''id1'', newSession world1 1 ''A'', 3600)]\<rparr>))
        (w_uuid world1) = Some (newSession world1 1 ''A'', sessionTtl env0)
   \<and> (\<exists>stats stats'. getChainStats env0 1 state2 = Inr stats
         \<and> getChainStats env0 1
              (state2\<lparr>sessions := [(''id1'', newSession world1 1 ''A'', 3600)]\<rparr>) = Inr stats'
         \<and> totalSessions stats' = totalSessions stats + 1)
   \<and> fst (getEndpoint env0 world2 1 state3) = Inl NoHealthyRpc
   \<and> sessions (snd (getEndpoint env0 world2 1 state3)) = sessions state3"
proof -
  have g: "getEndpoint env0 world1 1 state2
     = (Inr ''A'', state2\<lparr>sessions := [(''id1'', newSession world1 1 ''A'', 3600)]\<rparr>)"
    by (simp add: getEndpoint_def createSession_def getHealthyRpcUrl_def getChainConfig_def
          isEligible_def responseTimeOf_def newSession_def Let_def fixture_defs)
  have fresh: "w_uuid world1 \<notin> fst ` set (sessions state2)"
    by (simp add: fixture_defs)
  have f: "fst (getEndpoint env0 world2 1 state3) = Inl NoHealthyRpc"
    by (simp add: getEndpoint_def createSession_def getHealthyRpcUrl_def getChainConfig_def
          isEligible_def checkForceReload_def ERROR_TIME_WINDOW_def ERROR_THRESHOLD_def
          state3_def cfg2_def world2_def Let_def fixture_defs)
  show ?thesis
    using g fresh f
      getEndpoint_creates_session [of env0 world1 1 state2 "''A''"
        "state2\<lparr>sessions := [(''id1'', newSession world1 1 ''A'', 3600)]\<rparr>"]
      getEndpoint_creates_session [of env0 world2 1 state3]
    by blast
qed

text \<open>
  Claim C10 as stated has every call create a session. For a chain without an
  eligible URL the call fails with \<open>NoHealthyRpc\<close>; no session is stored and
  \<open>totalSessions\<close> stays 0 (only the selector's window has changed).
\<close>

theorem getEndpoint_failure_creates_no_session:
  "getChainConfig 1 state3 = Some cfg2
   \<and> getEndpoint env0 world2 1 state3
       = (Inl NoHealthyRpc, state3\<lparr>unhealthyErrors := [16000, 20000]\<rparr>)
   \<and> sessions (state3\<lparr>unhealthyErrors := [16000, 20000]\<rparr>) = sessions state3
   \<and> map_sum id totalSessions (getChainStats env0 1 state3) = Inr 0
   \<and> map_sum id totalSessions
        (getChainStats env0 1 (state3\<lparr>unhealthyErrors := [16000, 20000]\<rparr>)) = Inr 0"
  by (simp add: getEndpoint_def createSession_def getHealthyRpcUrl_def getChainConfig_def
        isEligible_def checkForceReload_def ERROR_TIME_WINDOW_def ERROR_THRESHOLD_def
        state3_def cfg2_def world2_def getChainStats_def Let_def fixture_defs)

text \<open>
  Claim C7, as the code has it. Let the record stored under session id \<open>s\<close> have a
  chain different from the requested chain \<open>c\<close>, and let \<open>uuidv4()\<close> give an
  identifier other than \<open>s\<close>. Then \<open>executeRequest\<close> deletes the record of \<open>s\<close>,
  and after the call \<open>getSession s\<close> yields nothing, whatever happens next. If
  \<open>createSession\<close> for \<open>c\<close> then fails (the chain is not configured, or has no
  eligible URL), the call fails with that error and the sessions are those of before
  without \<open>s\<close>. If it succeeds, its record is the new session for \<open>c\<close>; the request
  is forwarded with it, and after the call the store holds under the new identifier a
  record with that identifier, chain \<open>c\<close> and the selected URL. The record of \<open>s\<close>
  is never rewritten.
\<close>

theorem executeRequest_chain_switch:
  assumes old: "getSession s st = Some oldSession"
    and diff: "s_chainId oldSession \<noteq> c"
    and ne: "s \<noteq> []"
    and fresh: "w_uuid w \<noteq> s"
  shows "getSession s (snd (executeRequest env w c rpcRequest (Some s) st)) = None
     \<and> (\<forall>e. fst (createSession env w c (deleteSession s st)) = Inl e \<longrightarrow>
           fst (executeRequest env w c rpcRequest (Some s) st) = Inl e
           \<and> sessions (snd (executeRequest env w c rpcRequest (Some s) st))
               = AList.delete s (sessions st))
     \<and> (\<forall>new st1. createSession env w c (deleteSession s st) = (Inr new, st1) \<longrightarrow>
           new = newSession w c (s_url new)
           \<and> executeRequest env w c rpcRequest (Some s) st
               = forwardRequest env w rpcRequest new st1
           \<and> (\<exists>cur ttl.
                 map_of (sessions (snd (executeRequest env w c rpcRequest (Some s) st))) (w_uuid w)
                   = Some (cur, ttl)
                 \<and> s_id cur = w_uuid w \<and> s_chainId cur = c \<and> s_url cur = s_url new))"
proof -
  let ?st0 = "deleteSession s st"
  have res: "resolveSession env w c (Some s) st = createSession env w c ?st0"
    using old diff ne by (simp add: resolveSession_def)
  have ex: "executeRequest env w c rpcRequest (Some s) st =
      (case createSession env w c ?st0 of
         (Inl e, st') \<Rightarrow> (Inl e, st')
       | (Inr session, st') \<Rightarrow> forwardRequest env w rpcRequest session st')"
    by (simp add: executeRequest_def res)
  have gone0: "map_of (sessions ?st0) s = None"
    using deleteSession_gone [of s st] by (simp add: getSession_def)
  have gone1: "map_of (sessions (snd (createSession env w c ?st0))) s = None"
    using createSession_other [of s w env c ?st0] fresh gone0 by simp
  have failing: "fst (executeRequest env w c rpcRequest (Some s) st) = Inl e
      \<and> sessions (snd (executeRequest env w c rpcRequest (Some s) st)) = AList.delete s (sessions st)"
    if "fst (createSession env w c ?st0) = Inl e" for e
    using that createSession_Inl [OF that] unfolding ex
    by (cases "createSession env w c ?st0") (simp add: deleteSession_def)
  have succeeding: "new = newSession w c (s_url new)
      \<and> executeRequest env w c rpcRequest (Some s) st = forwardRequest env w rpcRequest new st1
      \<and> (\<exists>cur ttl.
            map_of (sessions (snd (executeRequest env w c rpcRequest (Some s) st))) (w_uuid w)
              = Some (cur, ttl)
            \<and> s_id cur = w_uuid w \<and> s_chainId cur = c \<and> s_url cur = s_url new)"
    if cs: "createSession env w c ?st0 = (Inr new, st1)" for new st1
  proof -
    from createSession_Inr [OF cs] have
      n: "new = newSession w c (s_url new)" and
      st1: "st1 = ?st0\<lparr>sessions := AList.update (w_uuid w) (new, sessionTtl env) (sessions ?st0)\<rparr>"
      unfolding newSession_def by blast+
    have id: "s_id new = w_uuid w" and ch: "s_chainId new = c"
      by (subst n, simp add: newSession_def)+
    have stored: "map_of (sessions st1) (s_id new) = Some (new, sessionTtl env)"
      unfolding st1 id by (simp add: update_conv')
    have e: "executeRequest env w c rpcRequest (Some s) st = forwardRequest env w rpcRequest new st1"
      unfolding ex cs by simp
    from forwardRequest_session [OF stored, of env w rpcRequest]
    show ?thesis
      unfolding e using n id ch by auto
  qed
  have gone: "getSession s (snd (executeRequest env w c rpcRequest (Some s) st)) = None"
  proof (cases "createSession env w c ?st0")
    case (Pair r st1)
    show ?thesis
    proof (cases r)
      case (Inl e)
      then show ?thesis
        using Pair gone1 unfolding ex by (simp add: getSession_def)
    next
      case (Inr new)
      have "s_id new = w_uuid w"
        using createSession_Inr [of env w c ?st0 new st1] Pair Inr
        by (metis RpcSession.select_convs(1))
      then have "s \<noteq> s_id new" using fresh by simp
      from forwardRequest_other [OF this, of env w rpcRequest st1]
      show ?thesis
        using Pair Inr gone1 unfolding ex by (simp add: getSession_def)
    qed
  qed
  show ?thesis
    using gone failing succeeding by blast
qed

theorem executeRequest_chain_switch_witness:
  "getSession ''s1'' state6 = Some session1 \<and> s_chainId session1 \<noteq> 137
   \<and> ''s1'' \<noteq> [] \<and> w_uuid world6 \<noteq> ''s1''
   \<and> getSession ''s1'' (snd (executeRequest env0 world6 137 request1 (Some ''s1'') state6)) = None
   \<and> executeRequest env0 world6 137 request1 (Some ''s1'') state6
       = forwardRequest env0 world6 request1 (newSession world6 137 ''D'')
           (state6\<lparr>sessions := [(''id1'', newSession world6 137 ''D'', 3600)]\<rparr>)
   \<and> (\<exists>cur ttl.
         map_of (sessions (snd (executeRequest env0 world6 137 request1 (Some ''s1'') state6)))
           (w_uuid world6) = Some (cur, ttl)
         \<and> s_id cur = w_uuid world6 \<and> s_chainId cur = 137 \<and> s_url cur = ''D'')"
proof -
  have old: "getSession ''s1'' state6 = Some session1"
    by (simp add: getSession_def fixture_defs)
  have diff: "s_chainId session1 \<noteq> 137"
    by (simp add: session1_def)
  have ne: "''s1'' \<noteq> []"
    by simp
  have fresh: "w_uuid world6 \<noteq> ''s1''"
    by (simp add: world6_def world1_def)
  have u: "s_url (newSession world6 137 ''D'') = ''D''"
    by (simp add: newSession_def)
  let ?r = "executeRequest env0 world6 137 request1 (Some ''s1'') state6"
  let ?n = "newSession world6 137 ''D''"
  let ?s = "state6\<lparr>sessions := [(''id1'', ?n, 3600)]\<rparr>"
  from executeRequest_chain_switch [OF old diff ne fresh, of env0 request1]
  have gone: "getSession ''s1'' (snd ?r) = None"
    and succ: "\<forall>new st1. createSession env0 world6 137 (deleteSession ''s1'' state6) = (Inr new, st1) \<longrightarrow>
           new = newSession world6 137 (s_url new)
           \<and> ?r = forwardRequest env0 world6 request1 new st1
           \<and> (\<exists>cur ttl. map_of (sessions (snd ?r)) (w_uuid world6) = Some (cur, ttl)
                 \<and> s_id cur = w_uuid world6 \<and> s_chainId cur = 137 \<and> s_url cur = s_url new)"
    by blast+
  from succ createSession_state6
  have "?r = forwardRequest env0 world6 request1 ?n ?s
      \<and> (\<exists>cur ttl. map_of (sessions (snd ?r)) (w_uuid world6) = Some (cur, ttl)
            \<and> s_id cur = w_uuid world6 \<and> s_chainId cur = 137 \<and> s_url cur = s_url ?n)"
    by blast
  then have "?r = forwardRequest env0 world6 request1 ?n ?s
      \<and> (\<exists>cur ttl. map_of (sessions (snd ?r)) (w_uuid world6) = Some (cur, ttl)
            \<and> s_id cur = w_uuid world6 \<and> s_chainId cur = 137 \<and> s_url cur = ''D'')"
    unfolding u .
  then show ?thesis
    using old diff ne fresh gone by blast
qed

text \<open>
  Claim C7 as stated has a fresh session created at every chain switch. When the
  requested chain 137 is not configured, the session \<open>s1\<close> of chain 1 is deleted,
  the call fails with \<open>ChainNotFound\<close>, and no session is left in the store.
\<close>

theorem executeRequest_chain_switch_unconfigured:
  "getSession ''s1'' state5 = Some session1 \<and> s_chainId session1 = 1
   \<and> executeRequest env0 world6 137 request1 (Some ''s1'') state5
       = (Inl ChainNotFound, state5\<lparr>sessions := []\<rparr>)"
  by (simp add: executeRequest_def resolveSession_def getSession_def deleteSession_def
        createSession_def getHealthyRpcUrl_def getChainConfig_def fixture_defs)

text \<open>
  What \<open>executeRequest\<close> does once it has resolved its session and axios rejects
  the forwarded POST (no response, or a status outside 200 to 299): \<open>checkHealth\<close>
  is run for the session's URL right after the forward, so the state after the call
  is the state after that probe and the health hash holds the record it wrote. When
  \<open>error.response.data\<close> is truthy, the call returns \<open>formatRpcResponse\<close> of it
  with the session id; when there was no response, or the data is falsy, the call
  fails with \<open>NoHealthyRpc\<close>.
\<close>

lemma executeRequest_failed_forward:
  assumes res: "resolveSession env w c sessionId st = (Inr session, st1)"
    and rej: "rejected (w_post w (s_url session) rpcRequest)"
    and dat: "dat = errorResponseData (w_post w (s_url session) rpcRequest)"
  shows "snd (executeRequest env w c rpcRequest sessionId st)
        = snd (checkHealth w (s_url session)
                 (st1\<lparr>trace := trace st1 @ [EvForward (s_url session)]\<rparr>))
     \<and> trace (snd (executeRequest env w c rpcRequest sessionId st))
        = trace st1 @ [EvForward (s_url session), EvProbe (s_url session)]
     \<and> map_of (health (snd (executeRequest env w c rpcRequest sessionId st))) (s_url session)
        = Some (fst (checkHealth w (s_url session)
                       (st1\<lparr>trace := trace st1 @ [EvForward (s_url session)]\<rparr>)))
     \<and> (truthy dat \<longrightarrow>
          fst (executeRequest env w c rpcRequest sessionId st)
            = Inr (formatRpcResponse dat (s_id session)))
     \<and> (\<not> truthy dat \<longrightarrow>
          fst (executeRequest env w c rpcRequest sessionId st) = Inl NoHealthyRpc)"
  unfolding executeRequest_rejected [OF res rej] dat
  by (simp add: checkHealth_frame checkHealth_written)

lemma executeRequest_failed_forward_example:
  "rejected (w_post world2 ''A'' request1)
   \<and> truthy (errorResponseData (w_post world2 ''A'' request1))
   \<and> fst (executeRequest env0 world2 1 request1 None state2)
       = Inr (formatRpcResponse errorBody ''id2'')
   \<and> trace (snd (executeRequest env0 world2 1 request1 None state2))
       = [EvForward ''A'', EvProbe ''A'']
   \<and> map_option failCount
        (map_of (health (snd (executeRequest env0 world2 1 request1 None state2))) ''A'')
       = Some 1
   \<and> rejected (w_post world1 ''A'' request1)
   \<and> \<not> truthy (errorResponseData (w_post world1 ''A'' request1))
   \<and> fst (executeRequest env0 world1 1 request1 None state2) = Inl NoHealthyRpc"
proof -
  have id2: "s_url (newSession world2 1 ''A'') = ''A''" "s_id (newSession world2 1 ''A'') = ''id2''"
    and id1: "s_url (newSession world1 1 ''A'') = ''A''"
    by (simp_all add: newSession_def world2_def world1_def)
  have r2: "rejected (w_post world2 (s_url (newSession world2 1 ''A'')) request1)"
    and r1: "rejected (w_post world1 (s_url (newSession world1 1 ''A'')) request1)"
    by (simp_all add: rejected_def world2_def world1_def)
  have d2: "errorBody = errorResponseData (w_post world2 (s_url (newSession world2 1 ''A'')) request1)"
    and d1: "JUndefined = errorResponseData (w_post world1 (s_url (newSession world1 1 ''A'')) request1)"
    by (simp_all add: errorResponseData_def world2_def world1_def)
  have t2: "truthy errorBody"
    by (simp add: errorBody_def)
  let ?n = "newSession world2 1 ''A''"
  let ?s1 = "state2\<lparr>sessions := [(w_uuid world2, ?n, 3600)]\<rparr>"
  let ?s2 = "?s1\<lparr>trace := trace ?s1 @ [EvForward (s_url ?n)]\<rparr>"
  let ?r = "executeRequest env0 world2 1 request1 None state2"
  from executeRequest_failed_forward [OF resolve_state2 r2 d2]
  have tr: "trace (snd ?r) = trace ?s1 @ [EvForward (s_url ?n), EvProbe (s_url ?n)]"
    and h: "map_of (health (snd ?r)) (s_url ?n) = Some (fst (checkHealth world2 (s_url ?n) ?s2))"
    and f: "truthy errorBody \<longrightarrow> fst ?r = Inr (formatRpcResponse errorBody (s_id ?n))"
    by blast+
  have tr': "trace (snd ?r) = [EvForward ''A'', EvProbe ''A'']"
    unfolding tr id2 by (simp add: state2_def emptyState_def)
  have fc: "failCount (fst (checkHealth world2 (s_url ?n) ?s2)) = 1"
    unfolding id2
    by (simp add: checkHealth_def world2_def Let_def incrementFailCount_def state2_def
          emptyState_def)
  have h': "map_option failCount (map_of (health (snd ?r)) ''A'') = Some 1"
    using h fc unfolding id2 by simp
  have f': "fst ?r = Inr (formatRpcResponse errorBody ''id2'')"
    using f t2 unfolding id2 by simp
  from executeRequest_failed_forward [OF resolve_state2 r1 d1]
  have b: "fst (executeRequest env0 world1 1 request1 None state2) = Inl NoHealthyRpc"
    by simp
  have t1: "\<not> truthy (errorResponseData (w_post world1 ''A'' request1))"
    using d1 [symmetric] unfolding id1 by simp
  have t2': "truthy (errorResponseData (w_post world2 ''A'' request1))"
    using d2 [symmetric] t2 unfolding id2 by simp
  show ?thesis
    using tr' h' f' b t1 t2' r1 r2 unfolding id1 id2 by blast
qed

text \<open>
  The formatted reply of an object never has an \<open>error\<close> member, whatever the
  object holds.
\<close>

lemma formatRpcResponse_drops_error:
  "truthy response \<Longrightarrow> isObjectType response \<Longrightarrow>
     getProp ''error'' (formatRpcResponse response sessionId) = JUndefined"
  by (simp add: formatRpcResponse_def getProp_def Let_def)

text \<open>
  Claim C2. When the forwarded POST fails and the upstream returned a decodable body,
  \<open>executeRequest\<close> runs \<open>checkHealth\<close> for the session's URL and returns that
  body formatted, so that the upstream's JSON-RPC error payload reaches the client.
  The code returns a formatted reply, but the payload is not in it: when the upstream
  answers with status 500 and the error reply \<open>{jsonrpc, id, error}\<close>, the reply
  returned holds the \<open>id\<close> and \<open>jsonrpc\<close> of the upstream's reply, the session
  id and an undefined \<open>result\<close>, and has no \<open>error\<close> member.
\<close>

theorem executeRequest_error_payload_dropped:
  "w_post world2 ''A'' request1 = HttpResponse 500 errorBody
   \<and> getProp ''error'' errorBody
       = JObj [(''code'', JNum (- 32601)), (''message'', JStr ''Method not found'')]
   \<and> fst (executeRequest env0 world2 1 request1 None state2)
       = Inr (JObj [(''id'', JNum 1), (''jsonrpc'', JStr ''2.0''),
                    (''sessionId'', JStr ''id2''), (''result'', JUndefined)])
   \<and> getProp ''error''
         (JObj [(''id'', JNum 1), (''jsonrpc'', JStr ''2.0''),
                (''sessionId'', JStr ''id2''), (''result'', JUndefined)]) = JUndefined"
proof -
  have r2: "rejected (w_post world2 (s_url (newSession world2 1 ''A'')) request1)"
    by (simp add: rejected_def world2_def)
  have "fst (executeRequest env0 world2 1 request1 None state2)
       = Inr (JObj [(''id'', JNum 1), (''jsonrpc'', JStr ''2.0''),
                    (''sessionId'', JStr ''id2''), (''result'', JUndefined)])"
    unfolding executeRequest_rejected [OF resolve_state2 r2]
    by (simp add: newSession_def world2_def errorResponseData_def errorBody_def
          formatRpcResponse_def getProp_def)
  then show ?thesis
    by (simp add: world2_def errorBody_def getProp_def)
qed

end
